theory Spec2Isabelle
  imports Complex_Main "HOL-Library.Word"
begin

unbundle bit_operations_syntax

section \<open>Python values used by getcoins.py\<close>

text \<open>
  A \<open>bytes\<close> object is a list of 8-bit words, a Python \<open>int\<close> is an \<open>int\<close>.
  The exceptions the script can meet in the modelled functions are values of
  \<open>py_error\<close>; a function that may raise returns \<open>py_error + 'a\<close>,
  with \<open>Inl\<close> for the exception.
\<close>

type_synonym byte = "8 word"

datatype py_error =
    ValueError string
  | IndexError
  | OverflowError
  | OtherError string

text \<open>
  Subscription \<open>xs[i]\<close> of a list or tuple: a negative index counts from the
  end, anything outside \<open>-len(xs) .. len(xs) - 1\<close> raises \<open>IndexError\<close>.
\<close>

definition py_getitem :: "'a list \<Rightarrow> int \<Rightarrow> py_error + 'a" where
  "py_getitem xs i =
     (if 0 \<le> i \<and> i < int (length xs) then Inr (xs ! nat i)
      else if i < 0 \<and> - int (length xs) \<le> i then Inr (xs ! nat (int (length xs) + i))
      else Inl IndexError)"

text \<open>Slicing \<open>xs[a:b]\<close> with integer bounds: negative bounds count from the end,
  and both are clipped to the sequence.\<close>

definition slice_bound :: "nat \<Rightarrow> int \<Rightarrow> nat" where
  "slice_bound n i = (if i < 0 then nat (int n + i) else min n (nat i))"

definition py_slice :: "'a list \<Rightarrow> int \<Rightarrow> int \<Rightarrow> 'a list" where
  "py_slice xs a b =
     (let lo = slice_bound (length xs) a; hi = slice_bound (length xs) b
      in take (hi - lo) (drop lo xs))"

text \<open>\<open>range(n)\<close> is \<open>0, ..., n - 1\<close>, empty when \<open>n \<le> 0\<close>.\<close>

definition py_range :: "int \<Rightarrow> int list" where
  "py_range n = [0..n - 1]"

subsection \<open>Reading from a \<open>BytesIO\<close>\<close>

text \<open>
  The stream is the list of bytes not yet read. \<open>readline\<close> returns the bytes up
  to and including the first newline (all of them when there is none) and the rest of
  the stream; \<open>read n\<close> returns at most \<open>n\<close> bytes, and everything when
  \<open>n\<close> is negative. The size is converted to the interpreter's size type
  first: outside \<open>-2^63 .. 2^63 - 1\<close> the call raises \<open>OverflowError\<close>.
\<close>

fun readline :: "byte list \<Rightarrow> byte list \<times> byte list" where
  "readline [] = ([], [])"
| "readline (b # bs) =
     (if b = 0x0A then ([b], bs)
      else (case readline bs of (l, r) \<Rightarrow> (b # l, r)))"

definition read :: "byte list \<Rightarrow> int \<Rightarrow> py_error + (byte list \<times> byte list)" where
  "read f n =
     (if n < - (2 ^ 63) \<or> 2 ^ 63 \<le> n then Inl OverflowError
      else if n < 0 then Inr (f, [])
      else Inr (take (nat n) f, drop (nat n) f))"

subsection \<open>\<open>bytes.rstrip\<close>, \<open>bytes.split\<close> and \<open>int\<close>\<close>

text \<open>ASCII whitespace: tab, newline, vertical tab, form feed, carriage return, space.\<close>

definition is_space :: "byte \<Rightarrow> bool" where
  "is_space b = (b = 0x09 \<or> b = 0x0A \<or> b = 0x0B \<or> b = 0x0C \<or> b = 0x0D \<or> b = 0x20)"

definition rstrip :: "byte list \<Rightarrow> byte list" where
  "rstrip bs = rev (dropWhile is_space (rev bs))"

text \<open>\<open>line.split(b' ')\<close>: every single space separates, so two spaces in a
  row, or a leading space, give an empty token; the result is never empty.\<close>

fun split_space :: "byte list \<Rightarrow> byte list list" where
  "split_space [] = [[]]"
| "split_space (b # bs) =
     (if b = 0x20 then [] # split_space bs
      else (case split_space bs of
              [] \<Rightarrow> [[b]]
            | t # ts \<Rightarrow> (b # t) # ts))"

text \<open>
  \<open>int(x)\<close> for a \<open>bytes\<close> argument, base 10, as CPython parses it: leading
  whitespace, an optional sign, decimal digits with single underscores between them,
  trailing whitespace, and then the end of the argument. Anything else raises
  \<open>ValueError\<close> (the interpreter's message also quotes the literal). A
  literal that passes the scan of its digits and has more than
  \<open>int_max_str_digits\<close> of them raises \<open>ValueError\<close> too, before
  the rest of the argument is looked at; the model takes the interpreter's default
  limit, 4300, which the script does not change.
\<close>

definition is_digit :: "byte \<Rightarrow> bool" where
  "is_digit b = (0x30 \<le> b \<and> b \<le> 0x39)"

definition digit_val :: "byte \<Rightarrow> int" where
  "digit_val b = int (unat b) - 48"

text \<open>The scan over digits and underscores: \<open>prev_us\<close> tells whether the
  previous byte was an underscore, \<open>acc\<close> is the value so far. It returns
  the value and the bytes after the number, or \<open>None\<close> for a doubled or a
  trailing underscore.\<close>

fun scan_digits :: "bool \<Rightarrow> int \<Rightarrow> byte list \<Rightarrow> (int \<times> byte list) option" where
  "scan_digits prev_us acc [] = (if prev_us then None else Some (acc, []))"
| "scan_digits prev_us acc (b # bs) =
     (if b = 0x5F then (if prev_us then None else scan_digits True acc bs)
      else if is_digit b then scan_digits False (acc * 10 + digit_val b) bs
      else if prev_us then None else Some (acc, b # bs))"

definition invalid_literal :: py_error where
  "invalid_literal = ValueError ''invalid literal for int() with base 10''"

definition int_max_str_digits :: nat where
  "int_max_str_digits = 4300"

definition digit_count :: "byte list \<Rightarrow> nat" where
  "digit_count s = length (filter is_digit (takeWhile (\<lambda>b. is_digit b \<or> b = 0x5F) s))"

definition exceeds_limit :: py_error where
  "exceeds_limit = ValueError ''Exceeds the limit (4300 digits) for integer string conversion''"

definition py_int :: "byte list \<Rightarrow> py_error + int" where
  "py_int bs =
     (let s = dropWhile is_space bs;
          neg = (s \<noteq> [] \<and> hd s = 0x2D);
          s1 = (if s \<noteq> [] \<and> (hd s = 0x2B \<or> hd s = 0x2D) then tl s else s)
      in if s1 = [] \<or> \<not> is_digit (hd s1) then Inl invalid_literal
         else (case scan_digits False 0 s1 of
                 None \<Rightarrow> Inl invalid_literal
               | Some (v, r) \<Rightarrow>
                   if int_max_str_digits < digit_count s1 then Inl exceeds_limit
                   else if dropWhile is_space r = [] then Inr (if neg then - v else v)
                   else Inl invalid_literal))"

text \<open>
  \<open>(width, height) = (int(x) for x in tokens)\<close>: the generator is consumed one
  item at a time, so \<open>int\<close> runs on the first two tokens and, when there is one,
  on the third, before the count is found wrong.
\<close>

fun unpack_dims :: "byte list list \<Rightarrow> py_error + (int \<times> int)" where
  "unpack_dims [] = Inl (ValueError ''not enough values to unpack (expected 2, got 0)'')"
| "unpack_dims [a] =
     (case py_int a of
        Inl e \<Rightarrow> Inl e
      | Inr w \<Rightarrow> Inl (ValueError ''not enough values to unpack (expected 2, got 1)''))"
| "unpack_dims (a # b # rest) =
     (case py_int a of
        Inl e \<Rightarrow> Inl e
      | Inr w \<Rightarrow>
          (case py_int b of
             Inl e \<Rightarrow> Inl e
           | Inr h \<Rightarrow>
               (case rest of
                  [] \<Rightarrow> Inr (w, h)
                | c # cs \<Rightarrow>
                    (case py_int c of
                       Inl e \<Rightarrow> Inl e
                     | Inr d \<Rightarrow> Inl (ValueError ''too many values to unpack (expected 2)'')))))"

section \<open>The PPM decoder: class \<open>PPMImage\<close>\<close>

text \<open>
  An image object has the attribute \<open>size\<close>, the pair \<open>(width, height)\<close>
  of the header, and \<open>_grid\<close>, a list of rows, each a list of pixels. A pixel
  is \<open>tuple(data[a:b])\<close>, a tuple of up to three integers below 256: it is
  shorter when \<open>data\<close> ends early. The model builds the grid whatever its
  size; that the interpreter runs out of memory on a grid too large for the machine
  is not part of it.
\<close>

type_synonym pixel = "byte list"

record PPMImage =
  size_img :: "int \<times> int"
  grid_img :: "pixel list list"

definition magic_line :: "byte list" where
  "magic_line = [0x50, 0x36, 0x0A]"

definition depth_line :: "byte list" where
  "depth_line = [0x32, 0x35, 0x35, 0x0A]"

definition build_grid :: "byte list \<Rightarrow> int \<Rightarrow> int \<Rightarrow> pixel list list" where
  "build_grid data width height =
     (let stride = width * 3
      in map (\<lambda>y. map (\<lambda>x. py_slice data (stride * y + 3 * x) (stride * y + 3 * (x + 1)))
                      (py_range width))
             (py_range height))"

definition PPMImage_init :: "byte list \<Rightarrow> py_error + PPMImage" where
  "PPMImage_init f =
     (case readline f of (l1, f1) \<Rightarrow>
        if l1 \<noteq> magic_line then Inl (ValueError ''Invalid ppm format: header'')
        else (case readline f1 of (line, f2) \<Rightarrow>
          (case unpack_dims (split_space (rstrip line)) of
             Inl e \<Rightarrow> Inl e
           | Inr (width, height) \<Rightarrow>
               (case readline f2 of (l3, f3) \<Rightarrow>
                  if l3 \<noteq> depth_line then Inl (ValueError ''Invalid ppm format: color depth'')
                  else (case read f3 (width * height * 3) of
                          Inl e \<Rightarrow> Inl e
                        | Inr (data, f4) \<Rightarrow>
                            Inr \<lparr>size_img = (width, height),
                                 grid_img = build_grid data width height\<rparr>)))))"

definition getpixel :: "PPMImage \<Rightarrow> int \<times> int \<Rightarrow> py_error + pixel" where
  "getpixel img pos =
     (case py_getitem (grid_img img) (snd pos) of
        Inl e \<Rightarrow> Inl e
      | Inr row \<Rightarrow> py_getitem row (fst pos))"

section \<open>The Braille renderer: \<open>print_image\<close>\<close>

definition BASE :: int where
  "BASE = 0x2800"

definition BIT_PER_PIXEL :: "int list list" where
  "BIT_PER_PIXEL = [[0x01, 0x08], [0x02, 0x10], [0x04, 0x20], [0x40, 0x80]]"

definition BW :: int where
  "BW = 2"

definition BH :: int where
  "BH = 4"

text \<open>A \<open>for\<close> loop whose body may raise: the state is threaded through the
  iterations, and the first exception ends the loop.\<close>

fun for_loop :: "'a list \<Rightarrow> ('a \<Rightarrow> 's \<Rightarrow> py_error + 's) \<Rightarrow> 's \<Rightarrow> py_error + 's" where
  "for_loop [] body s = Inr s"
| "for_loop (i # rest) body s =
     (case body i s of
        Inl e \<Rightarrow> Inl e
      | Inr s' \<Rightarrow> for_loop rest body s')"

text \<open>
  The body of the two inner loops, for the sub-pixel \<open>(x, y)\<close> of block
  \<open>(xb, yb)\<close>. Only the call of \<open>getpixel\<close> is inside the \<open>try\<close>:
  an \<open>IndexError\<close> raised there leaves \<open>ch\<close> as it is, while the
  \<open>else\<close> branch (\<open>val[0]\<close>, the table lookup) is not protected.
\<close>

definition set_dot :: "PPMImage \<Rightarrow> int \<Rightarrow> int \<Rightarrow> int \<Rightarrow> int \<Rightarrow> int \<Rightarrow> int \<Rightarrow> py_error + int" where
  "set_dot img threshold xb yb y x ch =
     (case getpixel img (xb * BW + x, yb * BH + y) of
        Inl IndexError \<Rightarrow> Inr ch
      | Inl e \<Rightarrow> Inl e
      | Inr val \<Rightarrow>
          (case py_getitem val 0 of
             Inl e \<Rightarrow> Inl e
           | Inr v \<Rightarrow>
               if int (unat v) < threshold then
                 (case py_getitem BIT_PER_PIXEL y of
                    Inl e \<Rightarrow> Inl e
                  | Inr row \<Rightarrow>
                      (case py_getitem row x of
                         Inl e \<Rightarrow> Inl e
                       | Inr b \<Rightarrow> Inr (ch OR b)))
               else Inr ch))"

definition block_char :: "PPMImage \<Rightarrow> int \<Rightarrow> int \<Rightarrow> int \<Rightarrow> py_error + int" where
  "block_char img threshold xb yb =
     for_loop (py_range BH)
       (\<lambda>y ch. for_loop (py_range BW) (\<lambda>x ch'. set_dot img threshold xb yb y x ch') ch)
       BASE"

text \<open>\<open>chr(ch)\<close>: a character is its code point; outside
  \<open>range(0x110000)\<close> the builtin raises \<open>ValueError\<close>.\<close>

definition py_chr :: "int \<Rightarrow> py_error + int" where
  "py_chr i =
     (if 0 \<le> i \<and> i < 0x110000 then Inr i
      else Inl (ValueError ''chr() arg not in range(0x110000)''))"

definition render_line :: "PPMImage \<Rightarrow> int \<Rightarrow> int \<Rightarrow> int \<Rightarrow> py_error + int list" where
  "render_line img threshold x_blocks yb =
     for_loop (py_range x_blocks)
       (\<lambda>xb line.
          case block_char img threshold xb yb of
            Inl e \<Rightarrow> Inl e
          | Inr ch \<Rightarrow>
              (case py_chr ch of
                 Inl e \<Rightarrow> Inl e
               | Inr c \<Rightarrow> Inr (line @ [c])))
       []"

text \<open>
  The outer loop prints one line per block row. The terminal is the list of lines
  printed so far; an exception ends the function and leaves the lines already
  printed, so the result is the terminal together with the exception, if any.
  The terminal is taken to accept every character: an output encoding that cannot
  represent the Braille block would make \<open>print\<close> itself raise.
\<close>

fun print_rows :: "PPMImage \<Rightarrow> int \<Rightarrow> int \<Rightarrow> int list \<Rightarrow> int list list
    \<Rightarrow> int list list \<times> py_error option" where
  "print_rows img threshold x_blocks [] out = (out, None)"
| "print_rows img threshold x_blocks (yb # rest) out =
     (case render_line img threshold x_blocks yb of
        Inl e \<Rightarrow> (out, Some e)
      | Inr line \<Rightarrow> print_rows img threshold x_blocks rest (out @ [line]))"

definition print_image :: "PPMImage \<Rightarrow> int \<Rightarrow> int list list \<times> py_error option" where
  "print_image img threshold =
     (let x_blocks = (fst (size_img img) + BW - 1) div BW;
          y_blocks = (snd (size_img img) + BH - 1) div BH
      in print_rows img threshold x_blocks (py_range y_blocks) [])"

section \<open>The claim URL check and the submission\<close>

definition ALLOWED_DOMAINS :: "string list" where
  "ALLOWED_DOMAINS = [''trusted-domain.com'', ''another-trusted-domain.com'']"

text \<open>
  \<open>is_valid_faucet_url\<close> calls two library functions, which the model takes
  as parameters: \<open>urlparse_hostname url\<close> stands for
  \<open>urlparse(url).hostname\<close> (a string or \<open>None\<close>, or an exception of
  the parser) and \<open>validators_domain h\<close> for the truth value of
  \<open>validators.domain(h)\<close>. The membership test \<open>hostname not in
  ALLOWED_DOMAINS\<close> compares with \<open>==\<close>, so \<open>None\<close> is in no list of
  strings.
\<close>

definition is_valid_faucet_url ::
  "(string \<Rightarrow> py_error + string option) \<Rightarrow> (string option \<Rightarrow> py_error + bool)
     \<Rightarrow> string \<Rightarrow> py_error + bool" where
  "is_valid_faucet_url urlparse_hostname validators_domain url =
     (case urlparse_hostname url of
        Inl e \<Rightarrow> Inl e
      | Inr hostname \<Rightarrow>
          (case validators_domain hostname of
             Inl e \<Rightarrow> Inl e
           | Inr ok \<Rightarrow>
               if \<not> ok then Inr False
               else if hostname \<notin> set (map Some ALLOWED_DOMAINS) then Inr False
               else Inr True))"

text \<open>
  The submission at the end of the script (the \<open>try\<close> block around
  \<open>requests.post\<close>). \<open>requests_post\<close> stands for the HTTP request; the
  model records the requests that were sent. Every exception inside the block,
  the \<open>ValueError\<close> of a rejected URL included, becomes \<open>SystemExit\<close>;
  its message names the class of the exception.
\<close>

datatype 'd http_call = Post string 'd

datatype exit = SystemExit string

fun error_class :: "py_error \<Rightarrow> string" where
  "error_class (ValueError m) = ''ValueError''"
| "error_class IndexError = ''IndexError''"
| "error_class OverflowError = ''OverflowError''"
| "error_class (OtherError c) = c"

definition contacting_faucet :: "py_error \<Rightarrow> exit" where
  "contacting_faucet e =
     SystemExit (''Unexpected error when contacting faucet: <class ''
                 @ [CHR 0x27] @ error_class e @ [CHR 0x27] @ ''>'')"

definition submit_claim ::
  "(string \<Rightarrow> py_error + string option) \<Rightarrow> (string option \<Rightarrow> py_error + bool)
     \<Rightarrow> (string \<Rightarrow> 'd \<Rightarrow> py_error + 'r) \<Rightarrow> string \<Rightarrow> 'd
     \<Rightarrow> 'd http_call list \<times> (exit + 'r)" where
  "submit_claim urlparse_hostname validators_domain requests_post faucet_url data =
     (case is_valid_faucet_url urlparse_hostname validators_domain faucet_url of
        Inl e \<Rightarrow> ([], Inl (contacting_faucet e))
      | Inr valid \<Rightarrow>
          if \<not> valid then
            ([], Inl (contacting_faucet
                        (ValueError (''Invalid or untrusted faucet URL: '' @ faucet_url))))
          else
            (case requests_post faucet_url data of
               Inl e \<Rightarrow> ([Post faucet_url data], Inl (contacting_faucet e))
             | Inr res \<Rightarrow> ([Post faucet_url data], Inr res)))"

section \<open>The library behind \<open>urlparse(url).hostname\<close>\<close>

text \<open>
  A model of the part of \<open>urllib.parse\<close> (CPython 3.11) that decides the
  \<open>hostname\<close> attribute, for URLs of 8-bit characters read as the code points
  below 256. On such text \<open>_checknetloc\<close> never raises. The validation of
  the text between square brackets, which the library delegates to the
  \<open>ipaddress\<close> module, is the parameter \<open>bracketed_host_ok\<close>.
  None of this is code of the script: the statements about the script take the
  parser as a parameter, and this model serves where a statement is about the host
  as the URL writes it.
\<close>

definition c0_control_or_space :: "char \<Rightarrow> bool" where
  "c0_control_or_space c = ((of_char c :: nat) \<le> 0x20)"

definition unsafe_url_byte :: "char \<Rightarrow> bool" where
  "unsafe_url_byte c = ((of_char c :: nat) \<in> {0x09, 0x0A, 0x0D})"

definition ascii_alpha :: "char \<Rightarrow> bool" where
  "ascii_alpha c =
     (let n = (of_char c :: nat) in (0x41 \<le> n \<and> n \<le> 0x5A) \<or> (0x61 \<le> n \<and> n \<le> 0x7A))"

definition scheme_chars :: string where
  "scheme_chars = ''abcdefghijklmnopqrstuvwxyzABCDEFGHIJKLMNOPQRSTUVWXYZ0123456789+-.''"

text \<open>\<open>str.lower\<close> on the code points below 256: the letters \<open>A\<close> to
  \<open>Z\<close> and the accented capitals \<open>0xC0\<close> to \<open>0xDE\<close> (the
  multiplication sign \<open>0xD7\<close> apart) move up by 32.\<close>

definition lower_char :: "char \<Rightarrow> char" where
  "lower_char c =
     (let n = (of_char c :: nat)
      in if (0x41 \<le> n \<and> n \<le> 0x5A) \<or> (0xC0 \<le> n \<and> n \<le> 0xDE \<and> n \<noteq> 0xD7)
         then char_of (n + 32) else c)"

definition lower :: "string \<Rightarrow> string" where
  "lower s = map lower_char s"

text \<open>\<open>s.partition(c)\<close> splits at the first \<open>c\<close>,
  \<open>s.rpartition(c)\<close> at the last one; the middle component tells whether
  the separator was found. Without it \<open>partition\<close> returns the whole string
  first, \<open>rpartition\<close> last.\<close>

fun str_partition :: "char \<Rightarrow> string \<Rightarrow> string \<times> bool \<times> string" where
  "str_partition c [] = ([], False, [])"
| "str_partition c (x # xs) =
     (if x = c then ([], True, xs)
      else (case str_partition c xs of (pre, found, post) \<Rightarrow> (x # pre, found, post)))"

definition str_rpartition :: "char \<Rightarrow> string \<Rightarrow> string \<times> bool \<times> string" where
  "str_rpartition c s =
     (case str_partition c (rev s) of
        (post, found, pre) \<Rightarrow>
          if found then (rev pre, True, rev post) else ([], False, s))"

definition splitnetloc :: "string \<Rightarrow> string" where
  "splitnetloc url = takeWhile (\<lambda>c. c \<notin> set ''/?#'') (drop 2 url)"

definition urlsplit_netloc :: "(string \<Rightarrow> bool) \<Rightarrow> string \<Rightarrow> py_error + string" where
  "urlsplit_netloc bracketed_host_ok url0 =
     (let url1 = dropWhile c0_control_or_space url0;
          url2 = filter (\<lambda>c. \<not> unsafe_url_byte c) url1;
          url3 = (case str_partition CHR '':'' url2 of
                    (scheme, found, rest) \<Rightarrow>
                      if found \<and> scheme \<noteq> [] \<and> ascii_alpha (hd url2)
                         \<and> list_all (\<lambda>c. c \<in> set scheme_chars) scheme
                      then rest else url2)
      in if take 2 url3 = ''//'' then
           (let netloc = splitnetloc url3;
                opening = (CHR ''['' \<in> set netloc);
                closing = (CHR '']'' \<in> set netloc)
            in if (opening \<and> \<not> closing) \<or> (closing \<and> \<not> opening)
               then Inl (ValueError ''Invalid IPv6 URL'')
               else if opening \<and> closing \<and>
                       \<not> bracketed_host_ok
                           (fst (str_partition CHR '']'' (snd (snd (str_partition CHR ''['' netloc)))))
               then Inl (ValueError ''invalid bracketed host'')
               else Inr netloc)
         else Inr [])"

definition hostinfo_host :: "string \<Rightarrow> string" where
  "hostinfo_host netloc =
     (case str_rpartition CHR ''@'' netloc of
        (userinfo, have_info, hostinfo) \<Rightarrow>
          (case str_partition CHR ''['' hostinfo of
             (pre, have_open_br, bracketed) \<Rightarrow>
               if have_open_br then fst (str_partition CHR '']'' bracketed)
               else fst (str_partition CHR '':'' hostinfo)))"

definition hostname :: "string \<Rightarrow> string option" where
  "hostname netloc =
     (let h = hostinfo_host netloc
      in if h = [] then None
         else (case str_partition CHR ''%'' h of
                 (host, percent, zone) \<Rightarrow>
                   Some (lower host @ (if percent then ''%'' else []) @ zone)))"

definition urllib_hostname :: "(string \<Rightarrow> bool) \<Rightarrow> string \<Rightarrow> py_error + string option" where
  "urllib_hostname bracketed_host_ok url =
     (case urlsplit_netloc bracketed_host_ok url of
        Inl e \<Rightarrow> Inl e
      | Inr netloc \<Rightarrow> Inr (hostname netloc))"

section \<open>Notions used in the statements\<close>

text \<open>
  The three header lines of a stream, as three calls of \<open>readline\<close> return
  them, and the bytes that follow.
\<close>

definition header_line1 :: "byte list \<Rightarrow> byte list" where
  "header_line1 f = fst (readline f)"

definition header_line2 :: "byte list \<Rightarrow> byte list" where
  "header_line2 f = fst (readline (snd (readline f)))"

definition header_line3 :: "byte list \<Rightarrow> byte list" where
  "header_line3 f = fst (readline (snd (readline (snd (readline f)))))"

definition pixel_bytes :: "byte list \<Rightarrow> byte list" where
  "pixel_bytes f = snd (readline (snd (readline (snd (readline f)))))"

text \<open>
  The decimal numeral of a natural number, as \<open>str(n).encode()\<close> writes it,
  and with it the header that a producer of the format writes for a
  \<open>w\<close> by \<open>h\<close> image: \<open>P6\<close>, the two numerals separated by one
  space, and \<open>255\<close>, each line ended by a newline.
\<close>

fun decimal :: "nat \<Rightarrow> byte list" where
  "decimal n =
     (if n < 10 then [of_nat (48 + n)]
      else decimal (n div 10) @ [of_nat (48 + n mod 10)])"

declare decimal.simps [simp del]

definition ppm_header :: "nat \<Rightarrow> nat \<Rightarrow> byte list" where
  "ppm_header w h = magic_line @ decimal w @ [0x20] @ decimal h @ [0x0A] @ depth_line"

text \<open>
  The invariants of a pixel grid: \<open>grid_shape img w h\<close> says that the image
  has size \<open>(w, h)\<close> and \<open>h\<close> rows of \<open>w\<close> pixels;
  \<open>pixels_nonempty\<close> that every pixel has a first channel;
  \<open>first_channels img P\<close> that every pixel has a first channel \<open>val[0]\<close>
  and that it satisfies \<open>P\<close>.
\<close>

definition grid_shape :: "PPMImage \<Rightarrow> int \<Rightarrow> int \<Rightarrow> bool" where
  "grid_shape img w h =
     (size_img img = (w, h) \<and> length (grid_img img) = nat h \<and>
      (\<forall>row \<in> set (grid_img img). length row = nat w))"

definition pixels_nonempty :: "PPMImage \<Rightarrow> bool" where
  "pixels_nonempty img = (\<forall>row \<in> set (grid_img img). \<forall>p \<in> set row. p \<noteq> [])"

definition first_channels :: "PPMImage \<Rightarrow> (int \<Rightarrow> bool) \<Rightarrow> bool" where
  "first_channels img P =
     (\<forall>row \<in> set (grid_img img). \<forall>p \<in> set row.
        case py_getitem p 0 of Inl e \<Rightarrow> False | Inr v \<Rightarrow> P (int (unat v)))"

text \<open>
  What one sub-pixel contributes to the character of its block: its bit of
  \<open>BIT_PER_PIXEL\<close> when the pixel exists and its first channel is below
  the threshold, and nothing otherwise. \<open>block_code\<close> is the code point of a
  block, \<open>rendering\<close> the lines of code points of the whole image.
\<close>

definition dot_bit :: "PPMImage \<Rightarrow> int \<Rightarrow> int \<Rightarrow> int \<Rightarrow> int \<Rightarrow> int \<Rightarrow> int" where
  "dot_bit img threshold xb yb y x =
     (case getpixel img (xb * BW + x, yb * BH + y) of
        Inl e \<Rightarrow> 0
      | Inr val \<Rightarrow>
          (case val of
             [] \<Rightarrow> 0
           | v # vs \<Rightarrow> if int (unat v) < threshold then BIT_PER_PIXEL ! nat y ! nat x else 0))"

definition block_code :: "PPMImage \<Rightarrow> int \<Rightarrow> int \<Rightarrow> int \<Rightarrow> int" where
  "block_code img threshold xb yb =
     BASE OR dot_bit img threshold xb yb 0 0 OR dot_bit img threshold xb yb 0 1
          OR dot_bit img threshold xb yb 1 0 OR dot_bit img threshold xb yb 1 1
          OR dot_bit img threshold xb yb 2 0 OR dot_bit img threshold xb yb 2 1
          OR dot_bit img threshold xb yb 3 0 OR dot_bit img threshold xb yb 3 1"

definition rendering :: "PPMImage \<Rightarrow> int \<Rightarrow> int list list" where
  "rendering img threshold =
     map (\<lambda>yb. map (\<lambda>xb. block_code img threshold xb yb)
                  (py_range ((fst (size_img img) + 1) div 2)))
         (py_range ((snd (size_img img) + 3) div 4))"

text \<open>
  Two stand-ins for the library parameters, for evaluating the URL check on a
  concrete URL: a check of bracketed hosts that accepts none (the URLs evaluated
  below have no bracket), and a domain validator that accepts exactly the
  allow-list entries. The library's validator accepts these entries, which are
  well-formed domain names; a validator that did not would make the check reject
  every URL.
\<close>

definition no_bracketed_host :: "string \<Rightarrow> bool" where
  "no_bracketed_host h = False"

definition listed_domain :: "string option \<Rightarrow> py_error + bool" where
  "listed_domain h = Inr (h \<in> set (map Some ALLOWED_DOMAINS))"

text \<open>Any validator that accepts every host name, for URLs that fail on the
  allow-list alone.\<close>

definition any_domain :: "string option \<Rightarrow> py_error + bool" where
  "any_domain h = Inr True"

text \<open>
  Example inputs. The byte streams are a header and pixel bytes: magic \<open>P5\<close>
  with header \<open>1 1\<close>, \<open>255\<close> and three bytes; depth \<open>256\<close> in
  place of \<open>255\<close>; header \<open>2 1\<close> with one byte where six are announced;
  a one-pixel image with the bytes 7, 8, 9; a one-pixel black image; the header
  \<open>0 0\<close> with no pixel bytes; and the header
  \<open>-10000000000 -10000000000\<close> with no pixel bytes. The image objects are a black 2 by 4 grid and
  a white and a black 3 by 5 grid.
\<close>

definition bad_magic_ppm :: "byte list" where
  "bad_magic_ppm =
     [0x50, 0x35, 0x0A, 0x31, 0x20, 0x31, 0x0A, 0x32, 0x35, 0x35, 0x0A, 0x00, 0x00, 0x00]"

definition bad_depth_ppm :: "byte list" where
  "bad_depth_ppm =
     [0x50, 0x36, 0x0A, 0x31, 0x20, 0x31, 0x0A, 0x32, 0x35, 0x36, 0x0A, 0x00, 0x00, 0x00]"

definition truncated_ppm :: "byte list" where
  "truncated_ppm = [0x50, 0x36, 0x0A, 0x32, 0x20, 0x31, 0x0A, 0x32, 0x35, 0x35, 0x0A, 0x07]"

definition one_pixel_ppm :: "byte list" where
  "one_pixel_ppm =
     [0x50, 0x36, 0x0A, 0x31, 0x20, 0x31, 0x0A, 0x32, 0x35, 0x35, 0x0A, 0x07, 0x08, 0x09]"

definition black_pixel_ppm :: "byte list" where
  "black_pixel_ppm =
     [0x50, 0x36, 0x0A, 0x31, 0x20, 0x31, 0x0A, 0x32, 0x35, 0x35, 0x0A, 0x00, 0x00, 0x00]"

definition zero_dims_ppm :: "byte list" where
  "zero_dims_ppm = [0x50, 0x36, 0x0A, 0x30, 0x20, 0x30, 0x0A, 0x32, 0x35, 0x35, 0x0A]"

definition huge_negative_ppm :: "byte list" where
  "huge_negative_ppm =
     [0x50, 0x36, 0x0A,
      0x2D, 0x31, 0x30, 0x30, 0x30, 0x30, 0x30, 0x30, 0x30, 0x30, 0x30, 0x30, 0x20,
      0x2D, 0x31, 0x30, 0x30, 0x30, 0x30, 0x30, 0x30, 0x30, 0x30, 0x30, 0x30, 0x0A,
      0x32, 0x35, 0x35, 0x0A]"

definition black_2x4 :: PPMImage where
  "black_2x4 = \<lparr>size_img = (2, 4), grid_img = replicate 4 (replicate 2 [0, 0, 0])\<rparr>"

definition white_3x5 :: PPMImage where
  "white_3x5 = \<lparr>size_img = (3, 5), grid_img = replicate 5 (replicate 3 [255, 255, 255])\<rparr>"

definition black_3x5 :: PPMImage where
  "black_3x5 = \<lparr>size_img = (3, 5), grid_img = replicate 5 (replicate 3 [0, 0, 0])\<rparr>"

section \<open>Auxiliary lemmas\<close>

subsection \<open>Ranges, subscription and \<open>getpixel\<close>\<close>

lemma length_py_range: "length (py_range n) = nat n"
  by (simp add: py_range_def)

lemma nth_py_range: "0 \<le> i \<Longrightarrow> i < n \<Longrightarrow> py_range n ! nat i = i"
  by (simp add: py_range_def)

lemma set_py_range: "set (py_range n) = {0..<n}"
  by (auto simp: py_range_def)

lemma py_range_4: "py_range 4 = [0, 1, 2, 3]"
  by (simp add: py_range_def upto.simps)

lemma py_range_2: "py_range 2 = [0, 1]"
  by (simp add: py_range_def upto.simps)

lemma py_getitem_error: "py_getitem xs i = Inl e \<Longrightarrow> e = IndexError"
  by (auto simp: py_getitem_def split: if_splits)

lemma py_getitem_mem: "py_getitem xs i = Inr v \<Longrightarrow> v \<in> set xs"
  by (auto simp: py_getitem_def split: if_splits)

lemma py_getitem_IndexError_iff:
  "(py_getitem xs i = Inl IndexError) = (\<not> (- int (length xs) \<le> i \<and> i < int (length xs)))"
  by (auto simp: py_getitem_def)

lemma getpixel_error: "getpixel img pos = Inl e \<Longrightarrow> e = IndexError"
  by (auto simp: getpixel_def split: sum.splits dest: py_getitem_error)

lemma getpixel_mem:
  "getpixel img pos = Inr p \<Longrightarrow> \<exists>row \<in> set (grid_img img). p \<in> set row"
  by (auto simp: getpixel_def split: sum.splits dest: py_getitem_mem)

lemma getpixel_shape_IndexError_iff:
  assumes "grid_shape img w h"
  shows "(getpixel img (x, y) = Inl IndexError) = (\<not> (- h \<le> y \<and> y < h \<and> - w \<le> x \<and> x < w))"
proof (cases "py_getitem (grid_img img) y")
  case (Inl e)
  then have "e = IndexError" by (rule py_getitem_error)
  with Inl have "\<not> (- int (length (grid_img img)) \<le> y \<and> y < int (length (grid_img img)))"
    by (simp add: py_getitem_IndexError_iff)
  with assms have "\<not> (- h \<le> y \<and> y < h)"
    by (auto simp: grid_shape_def split: if_splits)
  with Inl \<open>e = IndexError\<close> show ?thesis
    by (auto simp: getpixel_def)
next
  case (Inr row)
  then have "row \<in> set (grid_img img)" by (rule py_getitem_mem)
  with assms have len: "length row = nat w" by (simp add: grid_shape_def)
  from Inr have "py_getitem (grid_img img) y \<noteq> Inl IndexError" by simp
  then have "- int (length (grid_img img)) \<le> y \<and> y < int (length (grid_img img))"
    by (simp add: py_getitem_IndexError_iff)
  with assms have y: "- h \<le> y \<and> y < h"
    by (auto simp: grid_shape_def split: if_splits)
  have "(py_getitem row x = Inl IndexError) = (\<not> (- w \<le> x \<and> x < w))"
    using len by (auto simp: py_getitem_IndexError_iff split: if_splits)
  with Inr y show ?thesis
    by (simp add: getpixel_def)
qed

lemma getpixel_inside:
  assumes "grid_shape img w h" and "0 \<le> x" "x < w" "0 \<le> y" "y < h"
  shows "\<exists>p. getpixel img (x, y) = Inr p"
proof (cases "getpixel img (x, y)")
  case (Inl e)
  then have "e = IndexError" by (rule getpixel_error)
  with Inl assms show ?thesis
    by (simp add: getpixel_shape_IndexError_iff [OF assms(1)])
next
  case (Inr p)
  then show ?thesis by blast
qed

lemma build_grid_shape:
  "grid_shape \<lparr>size_img = (w, h), grid_img = build_grid data w h\<rparr> w h"
  by (auto simp: grid_shape_def build_grid_def Let_def length_py_range)

lemma PPMImage_init_Inr:
  assumes "PPMImage_init f = Inr img"
  shows "\<exists>w h data. img = \<lparr>size_img = (w, h), grid_img = build_grid data w h\<rparr>"
  using assms
  by (auto simp: PPMImage_init_def split: prod.splits if_splits sum.splits)

lemma PPMImage_init_shape:
  assumes "PPMImage_init f = Inr img" and "size_img img = (w, h)"
  shows "grid_shape img w h"
proof -
  from assms(1) obtain w' h' data where
    img: "img = \<lparr>size_img = (w', h'), grid_img = build_grid data w' h'\<rparr>"
    using PPMImage_init_Inr by blast
  with assms(2) have "w' = w" "h' = h" by simp_all
  with img show ?thesis by (simp add: build_grid_shape)
qed

lemma PPMImage_init_lines:
  "PPMImage_init f =
     (if header_line1 f \<noteq> magic_line then Inl (ValueError ''Invalid ppm format: header'')
      else (case unpack_dims (split_space (rstrip (header_line2 f))) of
              Inl e \<Rightarrow> Inl e
            | Inr (width, height) \<Rightarrow>
                if header_line3 f \<noteq> depth_line
                then Inl (ValueError ''Invalid ppm format: color depth'')
                else (case read (pixel_bytes f) (width * height * 3) of
                        Inl e \<Rightarrow> Inl e
                      | Inr (data, rest) \<Rightarrow>
                          Inr \<lparr>size_img = (width, height),
                               grid_img = build_grid data width height\<rparr>)))"
  by (simp add: PPMImage_init_def header_line1_def header_line2_def header_line3_def
      pixel_bytes_def split: prod.splits sum.splits)

subsection \<open>Numerals and the header\<close>

lemma digit_byte:
  assumes "d < 10"
  shows "is_digit (of_nat (48 + d)) \<and> digit_val (of_nat (48 + d)) = int d"
proof -
  from assms have "d \<in> {0, 1, 2, 3, 4, 5, 6, 7, 8, 9}" by auto
  then show ?thesis
    by (auto simp: is_digit_def digit_val_def)
qed

lemma is_digit_not_special:
  "is_digit b \<Longrightarrow> \<not> is_space b \<and> b \<noteq> 0x5F \<and> b \<noteq> 0x2B \<and> b \<noteq> 0x2D \<and> b \<noteq> 0x0A \<and> b \<noteq> 0x20"
  by (auto simp: is_digit_def is_space_def)

lemma decimal_digits: "b \<in> set (decimal n) \<Longrightarrow> is_digit b"
proof (induction n arbitrary: b rule: decimal.induct)
  case (1 n)
  show ?case
  proof (cases "n < 10")
    case True
    with "1.prems" digit_byte [of n] show ?thesis
      by (subst (asm) decimal.simps) simp
  next
    case False
    with "1.prems" have "b \<in> set (decimal (n div 10)) \<or> b = of_nat (48 + n mod 10)"
      by (subst (asm) decimal.simps) auto
    then show ?thesis
      using "1.IH" [OF False] digit_byte [of "n mod 10"] by auto
  qed
qed

lemma decimal_nonempty: "decimal n \<noteq> []"
  by (subst decimal.simps) simp

lemma decimal_value:
  "foldl (\<lambda>a b. a * 10 + digit_val b) acc (decimal n)
     = acc * 10 ^ length (decimal n) + int n"
proof (induction n arbitrary: acc rule: decimal.induct)
  case (1 n)
  show ?case
  proof (cases "n < 10")
    case True
    with digit_byte [of n] show ?thesis
      by (subst (1 2) decimal.simps) simp
  next
    case False
    let ?f = "\<lambda>a b. a * 10 + digit_val b"
    have u: "decimal n = decimal (n div 10) @ [of_nat (48 + n mod 10)]"
      using False by (subst decimal.simps) simp
    have d: "digit_val (of_nat (48 + n mod 10)) = int (n mod 10)"
      using digit_byte [of "n mod 10"] by simp
    have n: "int n = int (n div 10) * 10 + int (n mod 10)"
      by (simp add: zdiv_int zmod_int)
    have "foldl ?f acc (decimal n)
            = foldl ?f acc (decimal (n div 10)) * 10 + int (n mod 10)"
      by (simp only: u foldl_append foldl.simps d)
    also have "\<dots> = (acc * 10 ^ length (decimal (n div 10)) + int (n div 10)) * 10
                      + int (n mod 10)"
      by (simp only: "1.IH" [OF False])
    also have "\<dots> = acc * 10 ^ length (decimal n) + int n"
      by (simp add: u n algebra_simps)
    finally show ?thesis .
  qed
qed

lemma scan_digits_all:
  assumes "\<forall>b \<in> set ds. is_digit b" and "ds \<noteq> []"
  shows "scan_digits p acc ds = Some (foldl (\<lambda>a b. a * 10 + digit_val b) acc ds, [])"
  using assms
proof (induction ds arbitrary: p acc)
  case Nil
  then show ?case by simp
next
  case (Cons d ds)
  then have d: "is_digit d" "d \<noteq> 0x5F"
    using is_digit_not_special by auto
  show ?case
  proof (cases "ds = []")
    case True
    with d show ?thesis by simp
  next
    case False
    with Cons d show ?thesis by simp
  qed
qed

lemma dropWhile_keep: "xs \<noteq> [] \<Longrightarrow> \<not> P (hd xs) \<Longrightarrow> dropWhile P xs = xs"
  by (cases xs) simp_all

lemma hd_decimal_digit: "is_digit (hd (decimal n))"
  using decimal_nonempty [of n] decimal_digits [of "hd (decimal n)" n] by simp

lemma length_decimal: "0 < k \<Longrightarrow> n < 10 ^ k \<Longrightarrow> length (decimal n) \<le> k"
proof (induction n arbitrary: k rule: decimal.induct)
  case (1 n)
  show ?case
  proof (cases "n < 10")
    case True
    with "1.prems" show ?thesis
      by (subst decimal.simps) simp
  next
    case False
    obtain j where k: "k = Suc j"
      using "1.prems"(1) by (cases k) auto
    have "0 < j"
    proof (rule ccontr)
      assume "\<not> 0 < j"
      with k "1.prems"(2) False show False by simp
    qed
    moreover have "n div 10 < 10 ^ j"
      using "1.prems"(2) k by (simp add: less_mult_imp_div_less mult.commute)
    ultimately have "length (decimal (n div 10)) \<le> j"
      using "1.IH" [OF False] by blast
    with False k show ?thesis
      by (subst decimal.simps) simp
  qed
qed

lemma digit_count_digits:
  assumes "\<forall>b \<in> set ds. is_digit b"
  shows "digit_count ds = length ds"
proof -
  have tw: "takeWhile (\<lambda>b. is_digit b \<or> b = 0x5F) ds = ds"
    using assms by (intro takeWhile_eq_all_conv [THEN iffD2]) blast
  have fl: "filter is_digit ds = ds"
    using assms by (intro filter_True) blast
  show ?thesis
    unfolding digit_count_def tw fl ..
qed

lemma digit_count_decimal:
  assumes "n < 2 ^ 63"
  shows "\<not> int_max_str_digits < digit_count (decimal n)"
proof -
  have "(2::nat) ^ 63 < 10 ^ 19" by simp
  with assms have "n < 10 ^ 19" by simp
  then have "length (decimal n) \<le> 19"
    by (intro length_decimal) simp_all
  moreover have "digit_count (decimal n) = length (decimal n)"
    using decimal_digits by (intro digit_count_digits) blast
  ultimately show ?thesis by (simp add: int_max_str_digits_def)
qed

lemma py_int_decimal:
  assumes "n < 2 ^ 63"
  shows "py_int (decimal n) = Inr (int n)"
proof -
  have h: "is_digit (hd (decimal n))" by (rule hd_decimal_digit)
  have s: "dropWhile is_space (decimal n) = decimal n"
    using h by (intro dropWhile_keep) (simp_all add: decimal_nonempty is_digit_not_special)
  have sc: "scan_digits False 0 (decimal n) = Some (int n, [])"
    using decimal_digits [of _ n] decimal_value [of 0 n]
    by (subst scan_digits_all) (simp_all add: decimal_nonempty)
  show ?thesis
    using h is_digit_not_special [OF h] digit_count_decimal [OF assms]
    by (simp add: py_int_def s sc decimal_nonempty Let_def)
qed

lemma py_int_error: "py_int bs = Inl e \<Longrightarrow> \<exists>m. e = ValueError m"
  by (auto simp: py_int_def Let_def invalid_literal_def exceeds_limit_def
      split: if_splits option.splits prod.splits)

lemma unpack_dims_error: "unpack_dims ts = Inl e \<Longrightarrow> \<exists>m. e = ValueError m"
proof (cases ts rule: unpack_dims.cases)
  case 1
  then show "unpack_dims ts = Inl e \<Longrightarrow> ?thesis" by auto
next
  case (2 a)
  then show "unpack_dims ts = Inl e \<Longrightarrow> ?thesis"
    by (auto split: sum.splits dest: py_int_error)
next
  case (3 a b rest)
  then show "unpack_dims ts = Inl e \<Longrightarrow> ?thesis"
    by (auto split: sum.splits list.splits dest: py_int_error)
qed

lemma read_in_range:
  assumes "- (2 ^ 63) \<le> n" and "n < 2 ^ 63"
  shows "read f n = Inr (if n < 0 then f else take (nat n) f,
                         if n < 0 then [] else drop (nat n) f)"
  using assms by (simp add: read_def)

lemma readline_newline:
  "0x0A \<notin> set l \<Longrightarrow> readline (l @ 0x0A # r) = (l @ [0x0A], r)"
  by (induction l) auto

lemma readline_magic: "readline (magic_line @ r) = (magic_line, r)"
  by (simp add: magic_line_def)

lemma readline_depth: "readline (depth_line @ r) = (depth_line, r)"
  by (simp add: depth_line_def)

lemma split_space_last: "0x20 \<notin> set b \<Longrightarrow> split_space b = [b]"
  by (induction b) auto

lemma split_space_first:
  "0x20 \<notin> set a \<Longrightarrow> split_space (a @ 0x20 # b) = a # split_space b"
  by (induction a) auto

lemma decimal_no_special:
  "0x0A \<notin> set (decimal n)" "0x20 \<notin> set (decimal n)"
  using decimal_digits is_digit_not_special by blast+

lemma rstrip_dims: "rstrip (decimal w @ 0x20 # decimal h @ [0x0A]) = decimal w @ 0x20 # decimal h"
proof -
  have "\<not> is_space (hd (rev (decimal h)))"
    using decimal_digits [of "last (decimal h)" h] decimal_nonempty [of h]
    by (simp add: hd_rev is_digit_not_special)
  then have "dropWhile is_space (rev (decimal h) @ 0x20 # rev (decimal w))
               = rev (decimal h) @ 0x20 # rev (decimal w)"
    using decimal_nonempty [of h] by (intro dropWhile_keep) simp_all
  then show ?thesis
    by (simp add: rstrip_def is_space_def)
qed

lemma unpack_dims_decimal:
  assumes "w < 2 ^ 63" and "h < 2 ^ 63"
  shows "unpack_dims (split_space (rstrip (decimal w @ 0x20 # decimal h @ [0x0A])))
           = Inr (int w, int h)"
  using assms
  by (simp add: rstrip_dims split_space_first split_space_last decimal_no_special py_int_decimal)

lemma PPMImage_init_header:
  assumes "w < 2 ^ 63" and "h < 2 ^ 63" and "w * h * 3 < 2 ^ 63"
  shows "PPMImage_init (ppm_header w h @ data) =
     Inr \<lparr>size_img = (int w, int h),
          grid_img = build_grid (take (w * h * 3) data) (int w) (int h)\<rparr>"
proof -
  have l2: "readline (decimal w @ 0x20 # decimal h @ 0x0A # depth_line @ data)
              = (decimal w @ 0x20 # decimal h @ [0x0A], depth_line @ data)"
    using readline_newline [of "decimal w @ 0x20 # decimal h" "depth_line @ data"]
    by (simp add: decimal_no_special)
  have "int (w * h * 3) < 2 ^ 63"
    using assms(3) by (metis of_nat_less_iff of_nat_numeral of_nat_power)
  then have r: "read data (int w * int h * 3)
      = Inr (take (w * h * 3) data, drop (w * h * 3) data)"
    by (simp add: read_def nat_mult_distrib flip: of_nat_mult)
  show ?thesis
    by (simp add: PPMImage_init_def ppm_header_def readline_magic l2
        unpack_dims_decimal [OF assms(1,2)] readline_depth r)
qed

lemma py_slice_pixel:
  assumes "0 \<le> a" and "nat a + 3 \<le> length data"
  shows "py_slice data a (a + 3) = take 3 (drop (nat a) data)"
proof -
  have "slice_bound (length data) a = nat a"
    using assms by (simp add: slice_bound_def)
  moreover have "slice_bound (length data) (a + 3) = nat a + 3"
    using assms by (simp add: slice_bound_def nat_add_distrib)
  ultimately show ?thesis
    by (simp add: py_slice_def)
qed

lemma getpixel_build_grid:
  assumes "0 \<le> x" "x < w" "0 \<le> y" "y < h"
  shows "getpixel \<lparr>size_img = sz, grid_img = build_grid data w h\<rparr> (x, y)
           = Inr (py_slice data (w * 3 * y + 3 * x) (w * 3 * y + 3 * (x + 1)))"
  using assms
  by (simp add: getpixel_def build_grid_def Let_def py_getitem_def length_py_range nth_py_range)

lemma pixel_offset_bound:
  assumes "x < w" "y < h"
  shows "3 * (w * y + x) + 3 \<le> w * h * (3::nat)"
proof -
  have "w * y + x + 1 \<le> w * y + w" using assms by simp
  also have "\<dots> = w * (y + 1)" by simp
  also have "\<dots> \<le> w * h" using assms by (intro mult_le_mono2) simp
  finally show ?thesis by simp
qed

lemma take3_drop:
  assumes "k + 3 \<le> length xs"
  shows "take 3 (drop k xs) = [xs ! k, xs ! (k + 1), xs ! (k + 2)]"
proof (rule nth_equalityI)
  show "length (take 3 (drop k xs)) = length [xs ! k, xs ! (k + 1), xs ! (k + 2)]"
    using assms by simp
next
  fix i
  assume "i < length (take 3 (drop k xs))"
  then have "i = 0 \<or> i = 1 \<or> i = 2" by auto
  then show "take 3 (drop k xs) ! i = [xs ! k, xs ! (k + 1), xs ! (k + 2)] ! i"
    using assms by auto
qed

subsection \<open>The renderer in closed form\<close>

lemma set_dot_eq:
  assumes ne: "pixels_nonempty img" and y: "y \<in> {0, 1, 2, 3}" and x: "x \<in> {0, 1}"
  shows "set_dot img threshold xb yb y x ch = Inr (ch OR dot_bit img threshold xb yb y x)"
proof (cases "getpixel img (xb * BW + x, yb * BH + y)")
  case (Inl e)
  then have "e = IndexError" by (rule getpixel_error)
  with Inl show ?thesis by (simp add: set_dot_def dot_bit_def)
next
  case (Inr val)
  then obtain row where "row \<in> set (grid_img img)" "val \<in> set row"
    using getpixel_mem by blast
  with ne have "val \<noteq> []" by (auto simp: pixels_nonempty_def)
  then obtain v vs where val: "val = v # vs" by (cases val) auto
  have tab: "py_getitem BIT_PER_PIXEL y = Inr (BIT_PER_PIXEL ! nat y)"
    using y by (auto simp: py_getitem_def BIT_PER_PIXEL_def)
  have row: "py_getitem (BIT_PER_PIXEL ! nat y) x = Inr (BIT_PER_PIXEL ! nat y ! nat x)"
    using y x by (auto simp: py_getitem_def BIT_PER_PIXEL_def)
  show ?thesis
    using Inr val tab row by (simp add: set_dot_def dot_bit_def py_getitem_def)
qed

lemma block_char_eq:
  assumes "pixels_nonempty img"
  shows "block_char img threshold xb yb = Inr (block_code img threshold xb yb)"
  by (simp add: block_char_def block_code_def BH_def BW_def py_range_4 py_range_2
      set_dot_eq [OF assms] or.assoc)

lemma dot_bit_cases:
  "dot_bit img threshold xb yb y x = 0 \<or>
   dot_bit img threshold xb yb y x = BIT_PER_PIXEL ! nat y ! nat x"
  by (simp add: dot_bit_def split: sum.splits list.splits)

lemma dot_bit_range:
  assumes "y \<in> {0, 1, 2, 3}" and "x \<in> {0, 1}"
  shows "0 \<le> dot_bit img threshold xb yb y x \<and> dot_bit img threshold xb yb y x < 2 ^ 8"
proof -
  have "0 \<le> BIT_PER_PIXEL ! nat y ! nat x \<and> BIT_PER_PIXEL ! nat y ! nat x < 2 ^ 8"
    using assms by (auto simp: BIT_PER_PIXEL_def)
  with dot_bit_cases [of img threshold xb yb y x] show ?thesis
    by auto
qed

lemma block_code_range:
  "0 \<le> block_code img threshold xb yb \<and> block_code img threshold xb yb < 0x110000"
proof -
  let ?d = "dot_bit img threshold xb yb"
  have r: "\<And>y x. y \<in> {0, 1, 2, 3} \<Longrightarrow> x \<in> {0, 1} \<Longrightarrow> 0 \<le> ?d y x \<and> ?d y x < 2 ^ 14"
  proof -
    fix y x :: int
    assume "y \<in> {0, 1, 2, 3}" "x \<in> {0, 1}"
    then have "0 \<le> ?d y x \<and> ?d y x < 2 ^ 8" by (rule dot_bit_range)
    then show "0 \<le> ?d y x \<and> ?d y x < 2 ^ 14" by simp
  qed
  have b: "0 \<le> BASE \<and> BASE < 2 ^ 14" by (simp add: BASE_def)
  have "block_code img threshold xb yb < 2 ^ 14"
    unfolding block_code_def
    by (intro OR_upper) (use r b in simp_all)
  moreover have "0 \<le> block_code img threshold xb yb"
    unfolding block_code_def using r b by simp
  ultimately show ?thesis by simp
qed

lemma py_chr_block_code:
  "py_chr (block_code img threshold xb yb) = Inr (block_code img threshold xb yb)"
  using block_code_range [of img threshold xb yb] by (simp add: py_chr_def)

lemma for_loop_collect:
  assumes "\<And>i line. i \<in> set xs \<Longrightarrow> body i line = Inr (line @ [g i])"
  shows "for_loop xs body acc = Inr (acc @ map g xs)"
  using assms by (induction xs arbitrary: acc) simp_all

lemma render_line_eq:
  assumes "pixels_nonempty img"
  shows "render_line img threshold x_blocks yb =
         Inr (map (\<lambda>xb. block_code img threshold xb yb) (py_range x_blocks))"
  unfolding render_line_def
  by (subst for_loop_collect [where g = "\<lambda>xb. block_code img threshold xb yb"])
     (simp_all add: block_char_eq [OF assms] py_chr_block_code)

lemma print_rows_eq:
  assumes "\<And>yb. yb \<in> set ybs \<Longrightarrow> render_line img threshold x_blocks yb = Inr (g yb)"
  shows "print_rows img threshold x_blocks ybs out = (out @ map g ybs, None)"
  using assms by (induction ybs arbitrary: out) simp_all

lemma print_image_eq:
  assumes "pixels_nonempty img"
  shows "print_image img threshold = (rendering img threshold, None)"
  unfolding print_image_def Let_def rendering_def
  by (subst print_rows_eq
        [where g = "\<lambda>yb. map (\<lambda>xb. block_code img threshold xb yb)
                             (py_range ((fst (size_img img) + 1) div 2))"])
     (simp_all add: render_line_eq [OF assms] BW_def BH_def add.commute)

lemma rendering_nth:
  assumes "0 \<le> yb" "yb < (snd (size_img img) + 3) div 4"
    and "0 \<le> xb" "xb < (fst (size_img img) + 1) div 2"
  shows "rendering img threshold ! nat yb ! nat xb = block_code img threshold xb yb"
  using assms by (simp add: rendering_def length_py_range nth_py_range)

lemma rendering_lengths:
  "length (rendering img threshold) = nat ((snd (size_img img) + 3) div 4)"
  "line \<in> set (rendering img threshold) \<Longrightarrow> length line = nat ((fst (size_img img) + 1) div 2)"
  by (auto simp: rendering_def length_py_range)

lemma rendering_set:
  assumes "line \<in> set (rendering img threshold)" and "c \<in> set line"
  shows "\<exists>yb xb. 0 \<le> yb \<and> yb < (snd (size_img img) + 3) div 4 \<and>
                 0 \<le> xb \<and> xb < (fst (size_img img) + 1) div 2 \<and>
                 c = block_code img threshold xb yb"
  using assms by (fastforce simp: rendering_def set_py_range)

lemma first_channels_nonempty: "first_channels img P \<Longrightarrow> pixels_nonempty img"
  by (fastforce simp: first_channels_def pixels_nonempty_def py_getitem_def)

lemma first_channels_hd:
  assumes "first_channels img P" and "getpixel img pos = Inr p"
  shows "\<exists>v vs. p = v # vs \<and> P (int (unat v))"
proof -
  from assms(2) obtain row where "row \<in> set (grid_img img)" "p \<in> set row"
    using getpixel_mem by blast
  with assms(1) have "case py_getitem p 0 of Inl e \<Rightarrow> False | Inr v \<Rightarrow> P (int (unat v))"
    by (auto simp: first_channels_def)
  then show ?thesis
    by (cases p) (auto simp: py_getitem_def)
qed

lemma dot_bit_bright:
  assumes "first_channels img (\<lambda>c. threshold \<le> c)"
  shows "dot_bit img threshold xb yb y x = 0"
proof (cases "getpixel img (xb * BW + x, yb * BH + y)")
  case (Inl e)
  then show ?thesis by (simp add: dot_bit_def)
next
  case (Inr p)
  with assms obtain v vs where "p = v # vs" "threshold \<le> int (unat v)"
    using first_channels_hd by blast
  with Inr show ?thesis by (simp add: dot_bit_def)
qed

lemma block_code_bright:
  assumes "first_channels img (\<lambda>c. threshold \<le> c)"
  shows "block_code img threshold xb yb = 0x2800"
  by (simp add: block_code_def dot_bit_bright [OF assms] BASE_def)

lemma dot_bit_dark:
  assumes "first_channels img (\<lambda>c. c < threshold)" and "grid_shape img w h"
    and "0 \<le> xb * 2 + x" "xb * 2 + x < w" "0 \<le> yb * 4 + y" "yb * 4 + y < h"
  shows "dot_bit img threshold xb yb y x = BIT_PER_PIXEL ! nat y ! nat x"
proof -
  obtain p where p: "getpixel img (xb * 2 + x, yb * 4 + y) = Inr p"
    using getpixel_inside [OF assms(2-6)] by blast
  with assms(1) obtain v vs where "p = v # vs" "int (unat v) < threshold"
    using first_channels_hd by blast
  with p show ?thesis by (simp add: dot_bit_def BW_def BH_def)
qed

lemma block_code_dark:
  assumes "first_channels img (\<lambda>c. c < threshold)" and "grid_shape img w h"
    and "0 \<le> xb" "xb * 2 + 1 < w" "0 \<le> yb" "yb * 4 + 3 < h"
  shows "block_code img threshold xb yb = 0x28FF"
proof -
  have "\<And>y x. y \<in> {0, 1, 2, 3} \<Longrightarrow> x \<in> {0, 1} \<Longrightarrow>
      dot_bit img threshold xb yb y x = BIT_PER_PIXEL ! nat y ! nat x"
    using assms(3-6) by (intro dot_bit_dark [OF assms(1,2)]) auto
  then show ?thesis
    by (simp add: block_code_def BASE_def BIT_PER_PIXEL_def)
qed

lemma even_width_block: "xb < (w + 1) div 2 \<Longrightarrow> w mod 2 = 0 \<Longrightarrow> xb * 2 + 1 < (w::int)"
  by presburger

lemma four_height_block: "yb < (h + 3) div 4 \<Longrightarrow> h mod 4 = 0 \<Longrightarrow> yb * 4 + 3 < (h::int)"
  by presburger

lemma block_col_in_range: "xb * 2 + 1 < w \<Longrightarrow> xb < ((w::int) + 1) div 2"
  by linarith

lemma block_row_in_range: "yb * 4 + 3 < h \<Longrightarrow> yb < ((h::int) + 3) div 4"
  by linarith

lemma dot_bit_and:
  assumes "y' \<in> {0, 1, 2, 3}" and "x' \<in> {0, 1}" and "b \<in> {1, 2, 4, 8, 16, 32, 64, 128}"
  shows "dot_bit img threshold xb yb y' x' AND b =
         (if b = BIT_PER_PIXEL ! nat y' ! nat x' then dot_bit img threshold xb yb y' x' else 0)"
proof -
  have "dot_bit img threshold xb yb y' x' = 0 \<or>
        dot_bit img threshold xb yb y' x' = BIT_PER_PIXEL ! nat y' ! nat x'"
    by (rule dot_bit_cases)
  then show ?thesis
  proof
    assume "dot_bit img threshold xb yb y' x' = 0"
    then show ?thesis by simp
  next
    assume "dot_bit img threshold xb yb y' x' = BIT_PER_PIXEL ! nat y' ! nat x'"
    then show ?thesis
      using assms by (auto simp: BIT_PER_PIXEL_def)
  qed
qed

lemma block_code_and:
  assumes "y \<in> {0, 1, 2, 3}" and "x \<in> {0, 1}"
  shows "block_code img threshold xb yb AND BIT_PER_PIXEL ! nat y ! nat x =
         dot_bit img threshold xb yb y x"
  using assms
  by (auto simp: block_code_def BASE_def bit.conj_disj_distrib2 dot_bit_and BIT_PER_PIXEL_def)

lemma dot_bit_outside:
  assumes "grid_shape img w h" and "w \<le> xb * 2 + x \<or> h \<le> yb * 4 + y"
  shows "dot_bit img threshold xb yb y x = 0"
proof -
  have "getpixel img (xb * 2 + x, yb * 4 + y) = Inl IndexError"
    using assms(2) by (auto simp: getpixel_shape_IndexError_iff [OF assms(1)])
  then show ?thesis by (simp add: dot_bit_def BW_def BH_def)
qed

lemma blocks_ceiling:
  "(n + 3) div 4 = \<lceil>real_of_int n / 4\<rceil>" "(n + 1) div 2 = \<lceil>real_of_int n / 2\<rceil>"
proof -
  have "\<lceil>real_of_int n / real_of_int 4\<rceil> = - (- n div 4)"
    by (rule ceiling_divide_eq_div)
  also have "\<dots> = (n + 3) div 4" by presburger
  finally show "(n + 3) div 4 = \<lceil>real_of_int n / 4\<rceil>" by simp
  have "\<lceil>real_of_int n / real_of_int 2\<rceil> = - (- n div 2)"
    by (rule ceiling_divide_eq_div)
  also have "\<dots> = (n + 1) div 2" by presburger
  finally show "(n + 1) div 2 = \<lceil>real_of_int n / 2\<rceil>" by simp
qed

subsection \<open>The host name of a URL\<close>

lemma str_partition_not_found:
  "str_partition c s = (pre, False, post) \<Longrightarrow> pre = s \<and> post = []"
  by (induction s arbitrary: pre post) (auto split: if_splits prod.splits)

lemma hostname_without_percent:
  assumes "hostname netloc = Some h" and "CHR ''%'' \<notin> set h"
  shows "h = lower (hostinfo_host netloc)"
proof -
  obtain host percent zone where
    p: "str_partition CHR ''%'' (hostinfo_host netloc) = (host, percent, zone)"
    by (cases "str_partition CHR ''%'' (hostinfo_host netloc)")
  with assms(1) have h: "h = lower host @ (if percent then ''%'' else []) @ zone"
    by (auto simp: hostname_def Let_def split: if_splits)
  with assms(2) have "\<not> percent" by auto
  with p have "host = hostinfo_host netloc" "zone = []"
    using str_partition_not_found by auto
  with h \<open>\<not> percent\<close> show ?thesis by simp
qed

lemma allowed_no_percent: "h \<in> set ALLOWED_DOMAINS \<Longrightarrow> CHR ''%'' \<notin> set h"
  by (auto simp: ALLOWED_DOMAINS_def)

section \<open>The claims about the decoder\<close>

text \<open>
  Claim C1, amended. Decoding a stream whose first line is not the magic token
  fails with \<open>ValueError\<close> ("Invalid ppm format: header"), and decoding a
  stream whose third line is not the depth token fails with \<open>ValueError\<close>
  (with "Invalid ppm format: color depth" when the magic token and the dimension
  line are in order); in both cases no grid is returned. Truncated pixel data is
  not detected: no error depends on the bytes after the header. Two streams with
  the same three header lines fail with the same error or both decode, however
  many pixel bytes follow, so a stream with fewer than \<open>width * height * 3\<close>
  pixel bytes decodes whenever the stream with all of them does.
\<close>

theorem bad_tokens_rejected:
  "(header_line1 f \<noteq> magic_line \<longrightarrow>
      PPMImage_init f = Inl (ValueError ''Invalid ppm format: header''))
   \<and> (header_line3 f \<noteq> depth_line \<longrightarrow> (\<exists>m. PPMImage_init f = Inl (ValueError m)))
   \<and> (header_line1 f = magic_line
        \<and> unpack_dims (split_space (rstrip (header_line2 f))) = Inr (w, h)
        \<and> header_line3 f \<noteq> depth_line \<longrightarrow>
      PPMImage_init f = Inl (ValueError ''Invalid ppm format: color depth''))
   \<and> (header_line1 f = header_line1 f' \<and> header_line2 f = header_line2 f'
        \<and> header_line3 f = header_line3 f' \<longrightarrow>
      (\<forall>e. (PPMImage_init f = Inl e) = (PPMImage_init f' = Inl e))
      \<and> ((\<exists>img. PPMImage_init f = Inr img) = (\<exists>img. PPMImage_init f' = Inr img)))"
proof -
  have a: "header_line1 f \<noteq> magic_line \<longrightarrow>
      PPMImage_init f = Inl (ValueError ''Invalid ppm format: header'')"
    by (simp add: PPMImage_init_lines)
  have b: "header_line3 f \<noteq> depth_line \<longrightarrow> (\<exists>m. PPMImage_init f = Inl (ValueError m))"
    by (auto simp: PPMImage_init_lines split: sum.splits dest: unpack_dims_error)
  have c: "header_line1 f = magic_line
        \<and> unpack_dims (split_space (rstrip (header_line2 f))) = Inr (w, h)
        \<and> header_line3 f \<noteq> depth_line \<longrightarrow>
      PPMImage_init f = Inl (ValueError ''Invalid ppm format: color depth'')"
    by (simp add: PPMImage_init_lines)
  have d: "header_line1 f = header_line1 f' \<and> header_line2 f = header_line2 f'
        \<and> header_line3 f = header_line3 f' \<longrightarrow>
      (\<forall>e. (PPMImage_init f = Inl e) = (PPMImage_init f' = Inl e))
      \<and> ((\<exists>img. PPMImage_init f = Inr img) = (\<exists>img. PPMImage_init f' = Inr img))"
  proof
    assume same: "header_line1 f = header_line1 f' \<and> header_line2 f = header_line2 f'
        \<and> header_line3 f = header_line3 f'"
    have err: "(PPMImage_init f = Inl e) = (PPMImage_init f' = Inl e)" for e
      using same
      by (auto simp: PPMImage_init_lines [of f] PPMImage_init_lines [of f'] read_def
          split: sum.splits if_splits)
    have "(\<exists>img. PPMImage_init f = Inr img) = (\<forall>e. PPMImage_init f \<noteq> Inl e)"
      by (cases "PPMImage_init f") auto
    also have "\<dots> = (\<forall>e. PPMImage_init f' \<noteq> Inl e)"
      by (simp add: err)
    also have "\<dots> = (\<exists>img. PPMImage_init f' = Inr img)"
      by (cases "PPMImage_init f'") auto
    finally show "(\<forall>e. (PPMImage_init f = Inl e) = (PPMImage_init f' = Inl e))
      \<and> ((\<exists>img. PPMImage_init f = Inr img) = (\<exists>img. PPMImage_init f' = Inr img))"
      using err by blast
  qed
  from a b c d show ?thesis by (intro conjI)
qed

text \<open>
  The amended claim at three streams: a wrong magic token, a wrong depth token,
  and the header of a 2 by 1 image followed by a single byte. The last has the
  header lines of the stream with all six bytes, which decodes, and so it decodes
  too.
\<close>

theorem bad_tokens_rejected_witness:
  "header_line1 bad_magic_ppm \<noteq> magic_line
   \<and> PPMImage_init bad_magic_ppm = Inl (ValueError ''Invalid ppm format: header'')
   \<and> header_line3 bad_depth_ppm \<noteq> depth_line
   \<and> PPMImage_init bad_depth_ppm = Inl (ValueError ''Invalid ppm format: color depth'')
   \<and> length (pixel_bytes truncated_ppm) < 2 * 1 * 3
   \<and> (\<exists>img. PPMImage_init truncated_ppm = Inr img)"
proof -
  have m: "header_line1 bad_magic_ppm \<noteq> magic_line"
    by (simp add: header_line1_def bad_magic_ppm_def magic_line_def)
  have r1: "PPMImage_init bad_magic_ppm = Inl (ValueError ''Invalid ppm format: header'')"
    using bad_tokens_rejected [of bad_magic_ppm 0 0 bad_magic_ppm, THEN conjunct1] m
    by (rule mp)
  have d: "header_line1 bad_depth_ppm = magic_line
      \<and> unpack_dims (split_space (rstrip (header_line2 bad_depth_ppm))) = Inr (1, 1)
      \<and> header_line3 bad_depth_ppm \<noteq> depth_line"
    by code_simp
  have r2: "PPMImage_init bad_depth_ppm = Inl (ValueError ''Invalid ppm format: color depth'')"
    using bad_tokens_rejected [of bad_depth_ppm 1 1 bad_depth_ppm, THEN conjunct2,
        THEN conjunct2, THEN conjunct1] d by (rule mp)
  have t: "header_line1 (truncated_ppm @ [8, 9, 10, 11, 12]) = header_line1 truncated_ppm
      \<and> header_line2 (truncated_ppm @ [8, 9, 10, 11, 12]) = header_line2 truncated_ppm
      \<and> header_line3 (truncated_ppm @ [8, 9, 10, 11, 12]) = header_line3 truncated_ppm"
    by code_simp
  have full: "\<exists>img. PPMImage_init (truncated_ppm @ [8, 9, 10, 11, 12]) = Inr img"
  proof -
    have "PPMImage_init (truncated_ppm @ [8, 9, 10, 11, 12])
        = Inr \<lparr>size_img = (2, 1), grid_img = [[[7, 8, 9], [10, 11, 12]]]\<rparr>"
      by code_simp
    then show ?thesis by blast
  qed
  have "(\<exists>img. PPMImage_init (truncated_ppm @ [8, 9, 10, 11, 12]) = Inr img)
      = (\<exists>img. PPMImage_init truncated_ppm = Inr img)"
    using bad_tokens_rejected [of "truncated_ppm @ [8, 9, 10, 11, 12]" 2 1 truncated_ppm,
        THEN conjunct2, THEN conjunct2, THEN conjunct2, THEN mp, OF t]
    by (rule conjunct2)
  with full have r3: "\<exists>img. PPMImage_init truncated_ppm = Inr img" by simp
  have s: "length (pixel_bytes truncated_ppm) < 2 * 1 * 3"
    by code_simp
  from m r1 d r2 s r3 show ?thesis by simp
qed

text \<open>
  Claim C1 as stated fails: the stream with magic \<open>P6\<close>, header \<open>2 1\<close>,
  depth \<open>255\<close> and one byte of pixel data, where six are announced, is decoded
  without error into a partial grid.
\<close>

theorem truncated_data_counterexample:
  "PPMImage_init [0x50, 0x36, 0x0A, 0x32, 0x20, 0x31, 0x0A, 0x32, 0x35, 0x35, 0x0A, 0x07]
     = Inr \<lparr>size_img = (2, 1), grid_img = [[[0x07], []]]\<rparr>"
  by code_simp

text \<open>
  Claim C4, amended. For every decoded grid of width \<open>w\<close> and height
  \<open>h\<close>, \<open>getpixel\<close> fails, and then with \<open>IndexError\<close>, exactly
  when not (\<open>-w \<le> x < w\<close> and \<open>-h \<le> y < h\<close>): a negative coordinate
  down to \<open>-w\<close> or \<open>-h\<close> counts from the end and returns a pixel.
\<close>

theorem getpixel_index_error:
  assumes "PPMImage_init f = Inr img" and "size_img img = (w, h)"
  shows "(getpixel img (x, y) = Inl IndexError)
           = (\<not> (- w \<le> x \<and> x < w \<and> - h \<le> y \<and> y < h))
         \<and> (\<forall>e. getpixel img (x, y) = Inl e \<longrightarrow> e = IndexError)"
proof -
  have "grid_shape img w h"
    using assms by (rule PPMImage_init_shape)
  then have "(getpixel img (x, y) = Inl IndexError)
      = (\<not> (- h \<le> y \<and> y < h \<and> - w \<le> x \<and> x < w))"
    by (rule getpixel_shape_IndexError_iff)
  then show ?thesis
    using getpixel_error [of img "(x, y)"] by blast
qed

text \<open>The amended claim at the decoded one-pixel image: the coordinates
  \<open>(1, 0)\<close> and \<open>(0, -2)\<close> are out of range and raise.\<close>

theorem getpixel_index_error_witness:
  "PPMImage_init one_pixel_ppm = Inr \<lparr>size_img = (1, 1), grid_img = [[[7, 8, 9]]]\<rparr>
   \<and> getpixel \<lparr>size_img = (1, 1), grid_img = [[[7, 8, 9]]]\<rparr> (1, 0) = Inl IndexError
   \<and> getpixel \<lparr>size_img = (1, 1), grid_img = [[[7, 8, 9]]]\<rparr> (0, - 2) = Inl IndexError"
proof -
  let ?img = "\<lparr>size_img = (1, 1), grid_img = [[[7, 8, 9]]]\<rparr>"
  have h1: "PPMImage_init one_pixel_ppm = Inr ?img" by code_simp
  have h2: "size_img ?img = (1, 1)" by simp
  have "getpixel ?img (1, 0) = Inl IndexError"
    using getpixel_index_error [OF h1 h2, of 1 0] by simp
  moreover have "getpixel ?img (0, - 2) = Inl IndexError"
    using getpixel_index_error [OF h1 h2, of 0 "- 2"] by simp
  ultimately show ?thesis using h1 by simp
qed

text \<open>
  Claim C4 as stated fails: in the decoded one-pixel image the coordinate pair
  \<open>(-1, -1)\<close> is not within \<open>0 \<le> x < 1\<close>, \<open>0 \<le> y < 1\<close>, and
  \<open>getpixel\<close> returns the pixel instead of raising.
\<close>

theorem negative_index_counterexample:
  "PPMImage_init [0x50, 0x36, 0x0A, 0x31, 0x20, 0x31, 0x0A, 0x32, 0x35, 0x35, 0x0A, 7, 8, 9]
     = Inr \<lparr>size_img = (1, 1), grid_img = [[[7, 8, 9]]]\<rparr>
   \<and> \<not> (0 \<le> (- 1 :: int) \<and> (- 1 :: int) < 1 \<and> 0 \<le> (- 1 :: int) \<and> (- 1 :: int) < 1)
   \<and> getpixel \<lparr>size_img = (1, 1), grid_img = [[[7, 8, 9]]]\<rparr> (- 1, - 1) = Inr [7, 8, 9]"
  by code_simp

text \<open>
  Claim C5. A header with magic \<open>P6\<close>, positive width \<open>w\<close> and height
  \<open>h\<close> and depth \<open>255\<close>, followed by exactly \<open>w * h * 3\<close> bytes, is
  decoded without error, and for all \<open>0 \<le> x < w\<close>, \<open>0 \<le> y < h\<close> the
  lookup \<open>getpixel (x, y)\<close> returns a triple of bytes: the three bytes of the
  data at offset \<open>3 * (w * y + x)\<close>. The pixel data is a \<open>bytes\<close> object,
  and as such has fewer than \<open>2^63\<close> bytes.
\<close>

theorem wellformed_ppm_decodes:
  assumes "0 < w" and "0 < h" and "length data = w * h * 3" and "length data < 2 ^ 63"
  shows "\<exists>img. PPMImage_init (ppm_header w h @ data) = Inr img
           \<and> size_img img = (int w, int h)
           \<and> (\<forall>x y. x < w \<and> y < h \<longrightarrow>
                 getpixel img (int x, int y)
                   = Inr [data ! (3 * (w * y + x)), data ! (3 * (w * y + x) + 1),
                          data ! (3 * (w * y + x) + 2)])"
proof -
  let ?img = "\<lparr>size_img = (int w, int h), grid_img = build_grid data (int w) (int h)\<rparr>"
  have size: "w * h * 3 < 2 ^ 63"
    using assms(3,4) by simp
  have "w * 1 \<le> w * (h * 3)"
    using assms(2) by (intro mult_le_mono2) simp
  also have "w * (h * 3) = w * h * 3" by simp
  finally have "w \<le> w * h * 3" by simp
  then have w: "w < 2 ^ 63" using size by (rule le_less_trans)
  have "h * 1 \<le> h * (w * 3)"
    using assms(1) by (intro mult_le_mono2) simp
  also have "h * (w * 3) = w * h * 3" by simp
  finally have "h \<le> w * h * 3" by simp
  then have h: "h < 2 ^ 63" using size by (rule le_less_trans)
  have dec: "PPMImage_init (ppm_header w h @ data) = Inr ?img"
    using assms(3) by (simp add: PPMImage_init_header [OF w h size])
  have px: "getpixel ?img (int x, int y)
              = Inr [data ! (3 * (w * y + x)), data ! (3 * (w * y + x) + 1),
                     data ! (3 * (w * y + x) + 2)]"
    if "x < w" "y < h" for x y
  proof -
    let ?k = "3 * (w * y + x)"
    have e1: "int w * 3 * int y + 3 * int x = int ?k"
      by (simp add: algebra_simps)
    have e2: "int w * 3 * int y + 3 * (int x + 1) = int ?k + 3"
      by (simp add: algebra_simps)
    have bound: "?k + 3 \<le> length data"
      using pixel_offset_bound [OF that] assms(3) by simp
    have "getpixel ?img (int x, int y)
            = Inr (py_slice data (int w * 3 * int y + 3 * int x)
                                 (int w * 3 * int y + 3 * (int x + 1)))"
      using that by (intro getpixel_build_grid) simp_all
    also have "\<dots> = Inr (py_slice data (int ?k) (int ?k + 3))"
      by (simp only: e1 e2)
    also have "py_slice data (int ?k) (int ?k + 3) = take 3 (drop (nat (int ?k)) data)"
    proof (rule py_slice_pixel)
      show "0 \<le> int ?k" by (rule of_nat_0_le_iff)
      show "nat (int ?k) + 3 \<le> length data" using bound by (simp only: nat_int)
    qed
    also have "take 3 (drop (nat (int ?k)) data) = take 3 (drop ?k data)"
      by (simp only: nat_int)
    also have "\<dots> = [data ! (3 * (w * y + x)), data ! (3 * (w * y + x) + 1),
                       data ! (3 * (w * y + x) + 2)]"
      using bound by (rule take3_drop)
    finally show ?thesis .
  qed
  from dec px show ?thesis by auto
qed

text \<open>The claim at the one-pixel image with the bytes 7, 8, 9.\<close>

theorem wellformed_ppm_decodes_witness:
  "(0::nat) < 1 \<and> length [7, 8, 9 :: byte] = 1 * 1 * 3
   \<and> (\<exists>img. PPMImage_init (ppm_header 1 1 @ [7, 8, 9]) = Inr img
          \<and> size_img img = (1, 1) \<and> getpixel img (0, 0) = Inr [7, 8, 9])"
proof -
  have h: "(0::nat) < 1" "length [7, 8, 9 :: byte] = 1 * 1 * 3"
    "length [7, 8, 9 :: byte] < 2 ^ 63" by simp_all
  from wellformed_ppm_decodes [OF h(1) h(1) h(2) h(3)]
  obtain img where "PPMImage_init (ppm_header 1 1 @ [7, 8, 9]) = Inr img"
    "size_img img = (int 1, int 1)"
    "\<forall>x y. x < 1 \<and> y < 1 \<longrightarrow> getpixel img (int x, int y)
        = Inr [[7, 8, 9] ! (3 * (1 * y + x)), [7, 8, 9] ! (3 * (1 * y + x) + 1),
               [7, 8, 9] ! (3 * (1 * y + x) + 2)]"
    by blast
  then have "PPMImage_init (ppm_header 1 1 @ [7, 8, 9]) = Inr img \<and> size_img img = (1, 1)
      \<and> getpixel img (0, 0) = Inr [7, 8, 9]"
    by (auto dest: spec [where x = 0])
  with h show ?thesis by blast
qed

text \<open>
  Claim C10, amended. The decoder does not check that the dimensions are positive:
  when the header is \<open>P6\<close>, a line of two space-separated tokens that
  \<open>int\<close> accepts as integers that are zero or negative, and \<open>255\<close>, and
  \<open>width * height * 3\<close> is below \<open>2^63\<close>, the constructor returns an
  image with that size and the empty grid, in which every lookup raises
  \<open>IndexError\<close> (as for the dimensions \<open>0 0\<close>). From \<open>2^63\<close> on,
  \<open>f.read\<close> raises \<open>OverflowError\<close> and no image is constructed.
\<close>

theorem nonpositive_dims_accepted:
  assumes "header_line1 f = magic_line"
    and "split_space (rstrip (header_line2 f)) = [a, b]"
    and "py_int a = Inr w" and "py_int b = Inr h"
    and "header_line3 f = depth_line"
    and "w \<le> 0" and "h \<le> 0"
  shows "(w * h * 3 < 2 ^ 63 \<longrightarrow>
            PPMImage_init f = Inr \<lparr>size_img = (w, h), grid_img = []\<rparr>
            \<and> (\<forall>pos. getpixel \<lparr>size_img = (w, h), grid_img = []\<rparr> pos = Inl IndexError))
       \<and> (2 ^ 63 \<le> w * h * 3 \<longrightarrow> PPMImage_init f = Inl OverflowError)"
proof -
  have dims: "unpack_dims (split_space (rstrip (header_line2 f))) = Inr (w, h)"
    using assms(2-4) by simp
  have nonneg: "0 \<le> w * h * 3"
    using assms(6,7) by (simp add: mult_nonpos_nonpos)
  have grid: "build_grid data w h = []" for data
    using assms(7) by (simp add: build_grid_def py_range_def)
  have ok: "PPMImage_init f = Inr \<lparr>size_img = (w, h), grid_img = []\<rparr>"
    if "w * h * 3 < 2 ^ 63"
  proof -
    have "(- (2 ^ 63) :: int) \<le> 0" by simp
    also note nonneg
    finally have "- (2 ^ 63) \<le> w * h * 3" .
    then have "read (pixel_bytes f) (w * h * 3)
        = Inr (if w * h * 3 < 0 then pixel_bytes f
               else take (nat (w * h * 3)) (pixel_bytes f),
               if w * h * 3 < 0 then [] else drop (nat (w * h * 3)) (pixel_bytes f))"
      using that by (rule read_in_range)
    then show ?thesis
      using assms(1,5) dims by (simp add: PPMImage_init_lines grid)
  qed
  have err: "getpixel \<lparr>size_img = (w, h), grid_img = []\<rparr> pos = Inl IndexError" for pos
    by (simp add: getpixel_def py_getitem_def)
  have over: "PPMImage_init f = Inl OverflowError" if "2 ^ 63 \<le> w * h * 3"
    using assms(1,5) dims that
    by (simp add: PPMImage_init_lines read_def)
  from ok err over show ?thesis by blast
qed

text \<open>The amended claim at the stream with the dimension line \<open>0 0\<close>, and at
  the stream with two dimensions of \<open>-10000000000\<close>.\<close>

theorem nonpositive_dims_accepted_witness:
  "header_line1 zero_dims_ppm = magic_line
   \<and> split_space (rstrip (header_line2 zero_dims_ppm)) = [[0x30], [0x30]]
   \<and> py_int [0x30] = Inr 0
   \<and> header_line3 zero_dims_ppm = depth_line
   \<and> PPMImage_init zero_dims_ppm = Inr \<lparr>size_img = (0, 0), grid_img = []\<rparr>
   \<and> getpixel \<lparr>size_img = (0, 0), grid_img = []\<rparr> (0, 0) = Inl IndexError
   \<and> (2 ^ 63 :: int) \<le> (- 10000000000) * (- 10000000000) * 3
   \<and> PPMImage_init huge_negative_ppm = Inl OverflowError"
proof -
  have h1: "header_line1 zero_dims_ppm = magic_line" by code_simp
  have h2: "split_space (rstrip (header_line2 zero_dims_ppm)) = [[0x30], [0x30]]" by code_simp
  have h3: "py_int [0x30] = Inr 0" by code_simp
  have h4: "header_line3 zero_dims_ppm = depth_line" by code_simp
  have h5: "(0::int) \<le> 0" by simp
  note t = nonpositive_dims_accepted [OF h1 h2 h3 h3 h4 h5 h5]
  have "(0::int) * 0 * 3 < 2 ^ 63" by simp
  with t [THEN conjunct1] have
    z: "PPMImage_init zero_dims_ppm = Inr \<lparr>size_img = (0, 0), grid_img = []\<rparr>
      \<and> (\<forall>pos. getpixel \<lparr>size_img = (0, 0), grid_img = []\<rparr> pos = Inl IndexError)"
    by (rule mp)
  then have z1: "PPMImage_init zero_dims_ppm = Inr \<lparr>size_img = (0, 0), grid_img = []\<rparr>"
    and z2: "getpixel \<lparr>size_img = (0, 0), grid_img = []\<rparr> (0, 0) = Inl IndexError"
    by blast+
  let ?tok = "[0x2D, 0x31, 0x30, 0x30, 0x30, 0x30, 0x30, 0x30, 0x30, 0x30, 0x30, 0x30] :: byte list"
  have g1: "header_line1 huge_negative_ppm = magic_line" by code_simp
  have g2: "split_space (rstrip (header_line2 huge_negative_ppm)) = [?tok, ?tok]" by code_simp
  have g3: "py_int ?tok = Inr (- 10000000000)" by code_simp
  have g4: "header_line3 huge_negative_ppm = depth_line" by code_simp
  have g5: "(- 10000000000 :: int) \<le> 0" by simp
  have big: "(2 ^ 63 :: int) \<le> (- 10000000000) * (- 10000000000) * 3" by simp
  have o: "PPMImage_init huge_negative_ppm = Inl OverflowError"
    using nonpositive_dims_accepted [OF g1 g2 g3 g3 g4 g5 g5, THEN conjunct2] big
    by (rule mp)
  from h1 h2 h3 h4 z1 z2 big o show ?thesis by (intro conjI)
qed

text \<open>
  Claim C10 as stated fails: the stream with magic \<open>P6\<close>, the dimension line
  \<open>-10000000000 -10000000000\<close> and depth \<open>255\<close> has two tokens that parse
  as negative integers, and its construction raises \<open>OverflowError\<close>.
\<close>

theorem huge_dims_counterexample:
  "header_line1 huge_negative_ppm = magic_line
   \<and> unpack_dims (split_space (rstrip (header_line2 huge_negative_ppm)))
       = Inr (- 10000000000, - 10000000000)
   \<and> header_line3 huge_negative_ppm = depth_line
   \<and> PPMImage_init huge_negative_ppm = Inl OverflowError"
  by code_simp

section \<open>The claims about the renderer\<close>

text \<open>
  Claim C6, amended. For every grid in which every pixel's first channel is
  strictly below the threshold, rendering completes and every block that lies
  wholly inside the grid gives the code point \<open>0x28FF\<close>; when the width is a
  multiple of 2 and the height a multiple of 4 these are all the blocks, so every
  code point of the output is \<open>0x28FF\<close>. A block on a ragged edge has only the
  bits of its sub-pixels inside the grid.
\<close>

theorem dark_grid_full_blocks:
  assumes "first_channels img (\<lambda>c. c < threshold)" and "grid_shape img w h"
  shows "snd (print_image img threshold) = None
         \<and> (\<forall>xb yb. 0 \<le> xb \<and> xb * 2 + 1 < w \<and> 0 \<le> yb \<and> yb * 4 + 3 < h \<longrightarrow>
               fst (print_image img threshold) ! nat yb ! nat xb = 0x28FF)
         \<and> (w mod 2 = 0 \<and> h mod 4 = 0 \<longrightarrow>
               (\<forall>line \<in> set (fst (print_image img threshold)). \<forall>c \<in> set line. c = 0x28FF))"
proof -
  have pi: "print_image img threshold = (rendering img threshold, None)"
    using assms(1) by (simp add: print_image_eq first_channels_nonempty)
  have sz: "size_img img = (w, h)"
    using assms(2) by (simp add: grid_shape_def)
  have full: "rendering img threshold ! nat yb ! nat xb = 0x28FF"
    if "0 \<le> xb" "xb * 2 + 1 < w" "0 \<le> yb" "yb * 4 + 3 < h" for xb yb
  proof -
    have "yb < (h + 3) div 4" "xb < (w + 1) div 2"
      using that by (simp_all add: block_row_in_range block_col_in_range)
    then have "rendering img threshold ! nat yb ! nat xb = block_code img threshold xb yb"
      using that sz by (simp add: rendering_nth)
    also have "\<dots> = 0x28FF"
      using that by (rule block_code_dark [OF assms])
    finally show ?thesis .
  qed
  have all: "c = 0x28FF"
    if "w mod 2 = 0" "h mod 4 = 0" "line \<in> set (rendering img threshold)" "c \<in> set line"
    for line c
  proof -
    from rendering_set [OF that(3,4)] obtain yb xb where
      "0 \<le> yb \<and> yb < (snd (size_img img) + 3) div 4 \<and>
       0 \<le> xb \<and> xb < (fst (size_img img) + 1) div 2 \<and>
       c = block_code img threshold xb yb"
      by blast
    with sz have b: "0 \<le> yb" "yb < (h + 3) div 4" "0 \<le> xb" "xb < (w + 1) div 2"
      and c: "c = block_code img threshold xb yb"
      by simp_all
    have "xb * 2 + 1 < w" using b(4) that(1) by (rule even_width_block)
    moreover have "yb * 4 + 3 < h" using b(2) that(2) by (rule four_height_block)
    ultimately have "block_code img threshold xb yb = 0x28FF"
      using b(1,3) by (intro block_code_dark [OF assms])
    with c show ?thesis by simp
  qed
  have "snd (print_image img threshold) = None"
    by (simp add: pi)
  moreover have "\<forall>xb yb. 0 \<le> xb \<and> xb * 2 + 1 < w \<and> 0 \<le> yb \<and> yb * 4 + 3 < h \<longrightarrow>
      fst (print_image img threshold) ! nat yb ! nat xb = 0x28FF"
    using full by (simp add: pi)
  moreover have "w mod 2 = 0 \<and> h mod 4 = 0 \<longrightarrow>
      (\<forall>line \<in> set (fst (print_image img threshold)). \<forall>c \<in> set line. c = 0x28FF)"
    using all by (simp add: pi)
  ultimately show ?thesis by blast
qed

text \<open>The amended claim at the black 2 by 4 grid with threshold 128: one line
  of one character, \<open>0x28FF\<close>.\<close>

theorem dark_grid_full_blocks_witness:
  "first_channels black_2x4 (\<lambda>c. c < 128) \<and> grid_shape black_2x4 2 4
   \<and> snd (print_image black_2x4 128) = None
   \<and> fst (print_image black_2x4 128) ! 0 ! 0 = 0x28FF
   \<and> list_all (list_all (\<lambda>c. c = 0x28FF)) (fst (print_image black_2x4 128))"
proof -
  have h1: "first_channels black_2x4 (\<lambda>c. c < 128)"
    by (simp add: first_channels_def black_2x4_def py_getitem_def)
  have h2: "grid_shape black_2x4 2 4"
    by (simp add: grid_shape_def black_2x4_def)
  note t = dark_grid_full_blocks [OF h1 h2]
  have a: "snd (print_image black_2x4 128) = None"
    using t by (rule conjunct1)
  have "fst (print_image black_2x4 128) ! nat 0 ! nat 0 = 0x28FF"
    using t [THEN conjunct2, THEN conjunct1, THEN spec, THEN spec, of 0 0] by simp
  then have b: "fst (print_image black_2x4 128) ! 0 ! 0 = 0x28FF" by simp
  have "\<forall>line \<in> set (fst (print_image black_2x4 128)). \<forall>c \<in> set line. c = 0x28FF"
    using t [THEN conjunct2, THEN conjunct2] by simp
  then have c: "list_all (list_all (\<lambda>c. c = 0x28FF)) (fst (print_image black_2x4 128))"
    by (simp add: list_all_iff)
  from h1 h2 a b c show ?thesis by (intro conjI)
qed

text \<open>
  Claim C6 as stated fails: the one-pixel black image, decoded from its stream, has
  its only first channel below the threshold 128, and is rendered as the single
  code point \<open>0x2801\<close>, which is not \<open>0x28FF\<close>.
\<close>

theorem ragged_block_counterexample:
  "PPMImage_init black_pixel_ppm = Inr \<lparr>size_img = (1, 1), grid_img = [[[0, 0, 0]]]\<rparr>
   \<and> first_channels \<lparr>size_img = (1, 1), grid_img = [[[0, 0, 0]]]\<rparr> (\<lambda>c. c < 128)
   \<and> print_image \<lparr>size_img = (1, 1), grid_img = [[[0, 0, 0]]]\<rparr> 128 = ([[0x2801]], None)
   \<and> (0x2801 :: int) \<noteq> 0x28FF"
proof -
  let ?img = "\<lparr>size_img = (1, 1), grid_img = [[[0, 0, 0]]]\<rparr>"
  have d: "PPMImage_init black_pixel_ppm = Inr ?img" by code_simp
  have f: "first_channels ?img (\<lambda>c. c < 128)"
    by (simp add: first_channels_def py_getitem_def)
  have "print_image ?img 128 = (rendering ?img 128, None)"
    using f by (intro print_image_eq first_channels_nonempty)
  moreover have "rendering ?img 128 = [[0x2801]]"
    by (simp add: rendering_def py_range_def upto.simps block_code_def dot_bit_def
        getpixel_def py_getitem_def BW_def BH_def BASE_def BIT_PER_PIXEL_def)
  ultimately show ?thesis using d f by simp
qed

text \<open>
  Claim C7. For every grid in which every pixel's first channel is greater than or
  equal to the threshold, rendering completes and prints lines that consist of the
  blank Braille code point \<open>0x2800\<close> only.
\<close>

theorem bright_grid_renders_blank:
  assumes "first_channels img (\<lambda>c. threshold \<le> c)"
  shows "print_image img threshold =
           (replicate (nat ((snd (size_img img) + 3) div 4))
              (replicate (nat ((fst (size_img img) + 1) div 2)) 0x2800), None)
         \<and> (\<forall>line \<in> set (fst (print_image img threshold)). \<forall>c \<in> set line. c = 0x2800)"
proof -
  have "print_image img threshold = (rendering img threshold, None)"
    using assms by (simp add: print_image_eq first_channels_nonempty)
  moreover have "rendering img threshold =
      replicate (nat ((snd (size_img img) + 3) div 4))
        (replicate (nat ((fst (size_img img) + 1) div 2)) 0x2800)"
    by (simp add: rendering_def block_code_bright [OF assms] map_replicate_const length_py_range)
  ultimately show ?thesis by simp
qed

text \<open>The claim at the white 3 by 5 grid with threshold 128: two lines of two
  blank characters.\<close>

theorem bright_grid_renders_blank_witness:
  "first_channels white_3x5 (\<lambda>c. 128 \<le> c)
   \<and> print_image white_3x5 128 = ([[0x2800, 0x2800], [0x2800, 0x2800]], None)"
proof -
  have h: "first_channels white_3x5 (\<lambda>c. 128 \<le> c)"
    by (simp add: first_channels_def white_3x5_def py_getitem_def)
  from bright_grid_renders_blank [OF h]
  have "print_image white_3x5 128 =
          (replicate (nat ((snd (size_img white_3x5) + 3) div 4))
             (replicate (nat ((fst (size_img white_3x5) + 1) div 2)) 0x2800), None)"
    by blast
  moreover have "replicate (nat ((snd (size_img white_3x5) + 3) div 4))
             (replicate (nat ((fst (size_img white_3x5) + 1) div 2)) (0x2800::int))
           = [[0x2800, 0x2800], [0x2800, 0x2800]]"
    by (simp add: white_3x5_def numeral_2_eq_2)
  ultimately show ?thesis using h by simp
qed

text \<open>
  Claim C8. For every grid of \<open>h\<close> rows of \<open>w\<close> pixels, each with a first
  channel, and so in particular when \<open>w\<close> is not a multiple of 2 or \<open>h\<close>
  not a multiple of 4, rendering completes without error and prints exactly
  \<open>ceil(h / 4)\<close> lines of \<open>ceil(w / 2)\<close> characters each; a sub-pixel
  position outside the grid is unset: its bit of \<open>BIT_PER_PIXEL\<close> is not set
  in the character of its block.
\<close>

theorem ragged_grid_renders:
  assumes "grid_shape img w h" and "pixels_nonempty img"
  shows "snd (print_image img threshold) = None
       \<and> length (fst (print_image img threshold)) = nat \<lceil>real_of_int h / 4\<rceil>
       \<and> (\<forall>line \<in> set (fst (print_image img threshold)).
             length line = nat \<lceil>real_of_int w / 2\<rceil>)
       \<and> (\<forall>xb yb x y.
             0 \<le> xb \<and> xb < (w + 1) div 2 \<and> 0 \<le> yb \<and> yb < (h + 3) div 4
             \<and> x \<in> {0, 1} \<and> y \<in> {0, 1, 2, 3} \<and> (w \<le> xb * 2 + x \<or> h \<le> yb * 4 + y)
             \<longrightarrow> fst (print_image img threshold) ! nat yb ! nat xb
                   AND BIT_PER_PIXEL ! nat y ! nat x = 0)"
proof -
  have pi: "print_image img threshold = (rendering img threshold, None)"
    using assms(2) by (rule print_image_eq)
  have sz: "size_img img = (w, h)"
    using assms(1) by (simp add: grid_shape_def)
  have unset: "rendering img threshold ! nat yb ! nat xb AND BIT_PER_PIXEL ! nat y ! nat x = 0"
    if "0 \<le> xb" "xb < (w + 1) div 2" "0 \<le> yb" "yb < (h + 3) div 4"
      "x \<in> {0, 1}" "y \<in> {0, 1, 2, 3}" "w \<le> xb * 2 + x \<or> h \<le> yb * 4 + y"
    for xb yb x y
  proof -
    have "rendering img threshold ! nat yb ! nat xb = block_code img threshold xb yb"
      using that(1-4) sz by (simp add: rendering_nth)
    moreover have "block_code img threshold xb yb AND BIT_PER_PIXEL ! nat y ! nat x
        = dot_bit img threshold xb yb y x"
      using that(6,5) by (rule block_code_and)
    moreover have "dot_bit img threshold xb yb y x = 0"
      using assms(1) that(7) by (rule dot_bit_outside)
    ultimately show ?thesis by simp
  qed
  have "snd (print_image img threshold) = None"
    by (simp add: pi)
  moreover have "length (fst (print_image img threshold)) = nat \<lceil>real_of_int h / 4\<rceil>"
    using sz by (simp add: pi rendering_lengths flip: blocks_ceiling)
  moreover have "\<forall>line \<in> set (fst (print_image img threshold)).
      length line = nat \<lceil>real_of_int w / 2\<rceil>"
    using sz by (simp add: pi rendering_lengths flip: blocks_ceiling)
  moreover have "\<forall>xb yb x y.
      0 \<le> xb \<and> xb < (w + 1) div 2 \<and> 0 \<le> yb \<and> yb < (h + 3) div 4
      \<and> x \<in> {0, 1} \<and> y \<in> {0, 1, 2, 3} \<and> (w \<le> xb * 2 + x \<or> h \<le> yb * 4 + y)
      \<longrightarrow> fst (print_image img threshold) ! nat yb ! nat xb
            AND BIT_PER_PIXEL ! nat y ! nat x = 0"
    using unset unfolding pi fst_conv by blast
  ultimately show ?thesis by blast
qed

text \<open>The claim at the black 3 by 5 grid: two lines of two characters, and in
  the last block the sub-pixel \<open>(1, 1)\<close>, at column 3 and row 5, is unset.\<close>

theorem ragged_grid_renders_witness:
  "grid_shape black_3x5 3 5 \<and> pixels_nonempty black_3x5
   \<and> snd (print_image black_3x5 128) = None
   \<and> length (fst (print_image black_3x5 128)) = 2
   \<and> list_all (\<lambda>line. length line = 2) (fst (print_image black_3x5 128))
   \<and> fst (print_image black_3x5 128) ! 1 ! 1 AND 0x10 = 0"
proof -
  have h1: "grid_shape black_3x5 3 5"
    by (simp add: grid_shape_def black_3x5_def)
  have h2: "pixels_nonempty black_3x5"
    by (simp add: pixels_nonempty_def black_3x5_def)
  note t = ragged_grid_renders [OF h1 h2, of 128]
  from t have a: "snd (print_image black_3x5 128) = None" by blast
  from t have "length (fst (print_image black_3x5 128)) = nat \<lceil>real_of_int 5 / 4\<rceil>" by blast
  moreover have "nat \<lceil>real_of_int 5 / 4\<rceil> = 2" by simp
  ultimately have b: "length (fst (print_image black_3x5 128)) = 2" by simp
  from t have "\<forall>line \<in> set (fst (print_image black_3x5 128)).
      length line = nat \<lceil>real_of_int 3 / 2\<rceil>" by blast
  moreover have "nat \<lceil>real_of_int 3 / 2\<rceil> = 2" by simp
  ultimately have c: "list_all (\<lambda>line. length line = 2) (fst (print_image black_3x5 128))"
    by (simp add: list_all_iff)
  from t have "(0::int) \<le> 1 \<and> (1::int) < (3 + 1) div 2 \<and> (0::int) \<le> 1 \<and> (1::int) < (5 + 3) div 4
      \<and> (1::int) \<in> {0, 1} \<and> (1::int) \<in> {0, 1, 2, 3} \<and> ((3::int) \<le> 1 * 2 + 1 \<or> (5::int) \<le> 1 * 4 + 1)
      \<longrightarrow> fst (print_image black_3x5 128) ! nat 1 ! nat 1 AND BIT_PER_PIXEL ! nat 1 ! nat 1 = 0"
    by blast
  then have d: "fst (print_image black_3x5 128) ! 1 ! 1 AND 0x10 = 0"
    by (simp add: BIT_PER_PIXEL_def)
  from h1 h2 a b c d show ?thesis by blast
qed

section \<open>The claims about the URL check\<close>

text \<open>
  Claim C2. Whatever the two library functions return, and whatever the form data
  and the HTTP function are: when the host of the claim URL is not in the allow-list,
  or the validator does not accept it as a domain, \<open>is_valid_faucet_url\<close>
  returns \<open>False\<close> and the submission ends with \<open>SystemExit\<close> without
  having sent the request. (The request for the captcha, to another URL and earlier
  in the script, is not part of the submission.)
\<close>

theorem untrusted_url_rejected:
  assumes "urlparse_hostname url = Inr host" and "validators_domain host = Inr ok"
    and "host \<notin> set (map Some ALLOWED_DOMAINS) \<or> \<not> ok"
  shows "is_valid_faucet_url urlparse_hostname validators_domain url = Inr False
       \<and> submit_claim urlparse_hostname validators_domain requests_post url data
           = ([], Inl (contacting_faucet
                         (ValueError (''Invalid or untrusted faucet URL: '' @ url))))"
proof -
  have "is_valid_faucet_url urlparse_hostname validators_domain url = Inr False"
    using assms by (auto simp: is_valid_faucet_url_def)
  then show ?thesis by (simp add: submit_claim_def)
qed

text \<open>The claim at the script's default faucet URL, whose host is not in the
  allow-list, with a validator that accepts the host and an HTTP function that
  would answer.\<close>

theorem untrusted_url_rejected_witness:
  "urllib_hostname no_bracketed_host ''https://signetfaucet.com/claim''
     = Inr (Some ''signetfaucet.com'')
   \<and> any_domain (Some ''signetfaucet.com'') = Inr True
   \<and> Some ''signetfaucet.com'' \<notin> set (map Some ALLOWED_DOMAINS)
   \<and> is_valid_faucet_url (urllib_hostname no_bracketed_host) any_domain
        ''https://signetfaucet.com/claim'' = Inr False
   \<and> fst (submit_claim (urllib_hostname no_bracketed_host) any_domain
             (\<lambda>u d. Inr ''sent'') ''https://signetfaucet.com/claim''
             [(''address'', ''tb1qexample''), (''password'', ''''), (''amount'', ''0.001'')])
       = []"
proof -
  have h1: "urllib_hostname no_bracketed_host ''https://signetfaucet.com/claim''
      = Inr (Some ''signetfaucet.com'')"
    by code_simp
  have h2: "any_domain (Some ''signetfaucet.com'') = Inr True"
    by (simp add: any_domain_def)
  have h3: "Some ''signetfaucet.com'' \<notin> set (map Some ALLOWED_DOMAINS)"
    by (simp add: ALLOWED_DOMAINS_def)
  have h3': "Some ''signetfaucet.com'' \<notin> set (map Some ALLOWED_DOMAINS) \<or> \<not> True"
    using h3 by simp
  note t = untrusted_url_rejected
      [where urlparse_hostname = "urllib_hostname no_bracketed_host"
         and url = "''https://signetfaucet.com/claim''"
         and host = "Some ''signetfaucet.com''"
         and validators_domain = any_domain and ok = True
         and requests_post = "\<lambda>u d. Inr ''sent''"
         and data = "[(''address'', ''tb1qexample''), (''password'', ''''),
                      (''amount'', ''0.001'')]",
       OF h1 h2 h3']
  have a: "is_valid_faucet_url (urllib_hostname no_bracketed_host) any_domain
        ''https://signetfaucet.com/claim'' = Inr False"
    using t by (rule conjunct1)
  have b: "fst (submit_claim (urllib_hostname no_bracketed_host) any_domain
             (\<lambda>u d. Inr ''sent'') ''https://signetfaucet.com/claim''
             [(''address'', ''tb1qexample''), (''password'', ''''), (''amount'', ''0.001'')])
       = []"
    using t [THEN conjunct2] by simp
  from h1 h2 h3 a b show ?thesis by (intro conjI)
qed

text \<open>
  Claim C3, amended. The allow-list check compares the host name that the URL
  parser returns, with no wildcard or subdomain matching: for every parser and
  validator, \<open>is_valid_faucet_url\<close> accepts a URL only if the parser's
  \<open>hostname\<close> for it is literally one of the allow-list entries. With the
  library's parser that host name is the host of the URL converted to lower case, so
  the URL is accepted only if its host, in lower case, is one of the entries: the
  letter case of the host in the URL itself does not matter.
\<close>

theorem allow_list_exact_on_parsed_host:
  "(is_valid_faucet_url urlparse_hostname validators_domain url = Inr True \<longrightarrow>
      (\<exists>h. urlparse_hostname url = Inr (Some h) \<and> h \<in> set ALLOWED_DOMAINS))
   \<and> (is_valid_faucet_url (urllib_hostname bracketed_host_ok) validators_domain url = Inr True \<longrightarrow>
      (\<exists>netloc. urlsplit_netloc bracketed_host_ok url = Inr netloc
         \<and> lower (hostinfo_host netloc) \<in> set ALLOWED_DOMAINS))"
proof -
  have exact: "\<exists>h. up url = Inr (Some h) \<and> h \<in> set ALLOWED_DOMAINS"
    if "is_valid_faucet_url up validators_domain url = Inr True" for up
    using that
    by (auto simp: is_valid_faucet_url_def split: sum.splits if_splits)
  have folded: "\<exists>netloc. urlsplit_netloc bracketed_host_ok url = Inr netloc
         \<and> lower (hostinfo_host netloc) \<in> set ALLOWED_DOMAINS"
    if "is_valid_faucet_url (urllib_hostname bracketed_host_ok) validators_domain url = Inr True"
  proof -
    from exact [OF that] obtain h where
      h: "urllib_hostname bracketed_host_ok url = Inr (Some h)" "h \<in> set ALLOWED_DOMAINS"
      by blast
    from h(1) obtain netloc where
      n: "urlsplit_netloc bracketed_host_ok url = Inr netloc" "hostname netloc = Some h"
      by (auto simp: urllib_hostname_def split: sum.splits)
    from n(2) h(2) have "h = lower (hostinfo_host netloc)"
      by (intro hostname_without_percent allowed_no_percent)
    with n(1) h(2) show ?thesis by auto
  qed
  from exact folded show ?thesis by blast
qed

text \<open>The amended claim at a URL whose host is an allow-list entry written in
  capitals, with a port.\<close>

theorem allow_list_exact_on_parsed_host_witness:
  "is_valid_faucet_url (urllib_hostname no_bracketed_host) listed_domain
       ''https://TRUSTED-DOMAIN.COM:443/claim'' = Inr True
   \<and> (\<exists>h. urllib_hostname no_bracketed_host ''https://TRUSTED-DOMAIN.COM:443/claim''
            = Inr (Some h) \<and> h \<in> set ALLOWED_DOMAINS)
   \<and> (\<exists>netloc. urlsplit_netloc no_bracketed_host ''https://TRUSTED-DOMAIN.COM:443/claim''
            = Inr netloc \<and> lower (hostinfo_host netloc) \<in> set ALLOWED_DOMAINS)"
proof -
  have h: "is_valid_faucet_url (urllib_hostname no_bracketed_host) listed_domain
       ''https://TRUSTED-DOMAIN.COM:443/claim'' = Inr True"
    by code_simp
  note t = allow_list_exact_on_parsed_host
      [of "urllib_hostname no_bracketed_host" listed_domain
          "''https://TRUSTED-DOMAIN.COM:443/claim''" no_bracketed_host]
  have a: "\<exists>h. urllib_hostname no_bracketed_host ''https://TRUSTED-DOMAIN.COM:443/claim''
            = Inr (Some h) \<and> h \<in> set ALLOWED_DOMAINS"
    using t [THEN conjunct1] h by (rule mp)
  have b: "\<exists>netloc. urlsplit_netloc no_bracketed_host ''https://TRUSTED-DOMAIN.COM:443/claim''
            = Inr netloc \<and> lower (hostinfo_host netloc) \<in> set ALLOWED_DOMAINS"
    using t [THEN conjunct2] h by (rule mp)
  from h a b show ?thesis by (intro conjI)
qed

text \<open>
  Claim C3 as stated fails: the URL \<open>https://Trusted-Domain.com/claim\<close> is
  accepted, although its host, as written, is none of the allow-list entries: it
  differs from the first entry in letter case.
\<close>

theorem case_folded_host_counterexample:
  "is_valid_faucet_url (urllib_hostname no_bracketed_host) listed_domain
       ''https://Trusted-Domain.com/claim'' = Inr True
   \<and> urlsplit_netloc no_bracketed_host ''https://Trusted-Domain.com/claim''
       = Inr ''Trusted-Domain.com''
   \<and> hostinfo_host ''Trusted-Domain.com'' = ''Trusted-Domain.com''
   \<and> ''Trusted-Domain.com'' \<notin> set ALLOWED_DOMAINS"
  by code_simp

end
